theory Spec2Isabelle
  imports Complex_Main
begin

section \<open>Errors\<close>

text \<open>
  Every Python exception the modelled code can raise is a value of this type. A function
  that can raise returns \<open>error + 'a\<close>, with \<open>Inl\<close> for the exception.
  \<open>ValueError\<close> carries its message. \<open>ExternalError\<close> stands for whatever an
  external collaborator (the expression compiler, a compiled expression, the constant
  optimizer, a structural operator) raises.
\<close>

datatype error =
    ValueError string
  | AssertionError string
  | NameError string
  | TypeError
  | IndexError
  | AttributeError
  | ExternalError string

section \<open>The individual generator with injection: \<open>GenWithRLIndividuals\<close>\<close>

text \<open>
  The object has two fields. The random generator \<open>gp_gen_function\<close> is external; it draws
  from Python's global random source, whose state is the argument of type \<open>'r\<close>, and it may
  raise. A method that mutates \<open>self\<close> returns the new \<open>self\<close>.
\<close>

record ('i, 'p, 't, 'r) GenWithRLIndividuals =
  individuals :: "'i list"
  gp_gen_function :: "'p \<Rightarrow> int \<Rightarrow> int \<Rightarrow> 't \<Rightarrow> 'r \<Rightarrow> error + ('i \<times> 'r)"

definition GenWithRLIndividuals_init ::
  "('p \<Rightarrow> int \<Rightarrow> int \<Rightarrow> 't \<Rightarrow> 'r \<Rightarrow> error + ('i \<times> 'r)) \<Rightarrow> ('i, 'p, 't, 'r) GenWithRLIndividuals" where
  "GenWithRLIndividuals_init f = \<lparr>individuals = [], gp_gen_function = f\<rparr>"

text \<open>
  \<open>__call__(self, pset, min_, max_, condition, type_)\<close>: \<open>list.pop()\<close> removes and returns
  the last element; \<open>condition\<close> is accepted and not used. The parameters \<open>min_\<close>,
  \<open>max_\<close> and \<open>type_\<close> are written \<open>min0\<close>, \<open>max0\<close> and \<open>type0\<close>.
\<close>

definition GenWithRLIndividuals_call ::
  "('i, 'p, 't, 'r) GenWithRLIndividuals \<Rightarrow> 'p \<Rightarrow> int \<Rightarrow> int \<Rightarrow> 'c \<Rightarrow> 't \<Rightarrow> 'r
     \<Rightarrow> (error + ('i \<times> 'r)) \<times> ('i, 'p, 't, 'r) GenWithRLIndividuals" where
  "GenWithRLIndividuals_call self pset min0 max0 condition type0 rng =
     (if length (individuals self) > 0
      then (Inr (last (individuals self), rng),
            self\<lparr>individuals := butlast (individuals self)\<rparr>)
      else (gp_gen_function self pset min0 max0 type0 rng, self))"

definition insert_front ::
  "('i, 'p, 't, 'r) GenWithRLIndividuals \<Rightarrow> 'i list \<Rightarrow> ('i, 'p, 't, 'r) GenWithRLIndividuals" where
  "insert_front self inds = self\<lparr>individuals := inds @ individuals self\<rparr>"

definition insert_back ::
  "('i, 'p, 't, 'r) GenWithRLIndividuals \<Rightarrow> 'i list \<Rightarrow> ('i, 'p, 't, 'r) GenWithRLIndividuals" where
  "insert_back self inds = self\<lparr>individuals := individuals self @ inds\<rparr>"

definition clear ::
  "('i, 'p, 't, 'r) GenWithRLIndividuals \<Rightarrow> ('i, 'p, 't, 'r) GenWithRLIndividuals" where
  "clear self = self\<lparr>individuals := []\<rparr>"

section \<open>Numbers and arrays\<close>

text \<open>
  A NumPy float is a real number or one of the three special values. Rounding and overflow
  of finite values are left out: finite arithmetic is exact. Division follows NumPy, which
  warns and does not raise: \<open>0/0\<close> is \<open>nan\<close> and \<open>x/0\<close> is an infinity. Zero has no
  sign.
\<close>

datatype np_float = Fin real | PInf | NInf | NaN

fun np_add :: "np_float \<Rightarrow> np_float \<Rightarrow> np_float" where
  "np_add (Fin a) (Fin b) = Fin (a + b)"
| "np_add NaN _ = NaN"
| "np_add _ NaN = NaN"
| "np_add PInf NInf = NaN"
| "np_add NInf PInf = NaN"
| "np_add PInf _ = PInf"
| "np_add _ PInf = PInf"
| "np_add NInf _ = NInf"
| "np_add _ NInf = NInf"

fun np_neg :: "np_float \<Rightarrow> np_float" where
  "np_neg (Fin a) = Fin (- a)"
| "np_neg PInf = NInf"
| "np_neg NInf = PInf"
| "np_neg NaN = NaN"

definition np_sub :: "np_float \<Rightarrow> np_float \<Rightarrow> np_float" where
  "np_sub a b = np_add a (np_neg b)"

fun np_square :: "np_float \<Rightarrow> np_float" where
  "np_square (Fin a) = Fin (a * a)"
| "np_square PInf = PInf"
| "np_square NInf = PInf"
| "np_square NaN = NaN"

fun np_div :: "np_float \<Rightarrow> np_float \<Rightarrow> np_float" where
  "np_div (Fin a) (Fin b) =
     (if b \<noteq> 0 then Fin (a / b)
      else if a = 0 then NaN else if 0 < a then PInf else NInf)"
| "np_div NaN _ = NaN"
| "np_div _ NaN = NaN"
| "np_div (Fin a) _ = Fin 0"
| "np_div PInf (Fin b) = (if 0 \<le> b then PInf else NInf)"
| "np_div NInf (Fin b) = (if 0 \<le> b then NInf else PInf)"
| "np_div _ _ = NaN"

fun np_sqrt :: "np_float \<Rightarrow> np_float" where
  "np_sqrt (Fin a) = (if a < 0 then NaN else Fin (sqrt a))"
| "np_sqrt PInf = PInf"
| "np_sqrt NInf = NaN"
| "np_sqrt NaN = NaN"

text \<open>The comparison \<open>a < b\<close>; it is false as soon as one side is \<open>nan\<close>.\<close>

fun np_less :: "np_float \<Rightarrow> np_float \<Rightarrow> bool" where
  "np_less (Fin a) (Fin b) = (a < b)"
| "np_less NaN _ = False"
| "np_less _ NaN = False"
| "np_less _ NInf = False"
| "np_less PInf _ = False"
| "np_less _ _ = True"

text \<open>
  A one-dimensional array is a list. \<open>np.mean\<close> of an empty array is \<open>nan\<close> (the sum
  \<open>0\<close> divided by the count \<open>0\<close>). A scalar is a one-element array: it broadcasts the
  same way and has the same mean.
\<close>

definition np_sum :: "np_float list \<Rightarrow> np_float" where
  "np_sum xs = foldr np_add xs (Fin 0)"

definition np_mean :: "np_float list \<Rightarrow> np_float" where
  "np_mean xs = np_div (np_sum xs) (Fin (real (length xs)))"

definition np_var :: "np_float list \<Rightarrow> np_float" where
  "np_var xs = np_mean (map (\<lambda>x. np_square (np_sub x (np_mean xs))) xs)"

definition np_ones :: "nat \<Rightarrow> np_float list" where
  "np_ones n = replicate n (Fin 1)"

text \<open>
  \<open>y - y_hat\<close> on arrays: elementwise on equal lengths, a one-element operand is
  broadcast, any other pair of lengths raises.
\<close>

definition array_sub :: "np_float list \<Rightarrow> np_float list \<Rightarrow> error + np_float list" where
  "array_sub xs ys =
     (if length xs = length ys then Inr (map2 np_sub xs ys)
      else if length ys = 1 then Inr (map (\<lambda>x. np_sub x (hd ys)) xs)
      else if length xs = 1 then Inr (map (\<lambda>y. np_sub (hd xs) y) ys)
      else Inl (ValueError ''operands could not be broadcast together''))"

section \<open>The fitness metric factory: \<open>make_fitness\<close>\<close>

text \<open>
  The four lambdas of \<open>make_fitness\<close>, each named after its metric. \<open>var_y\<close> is a scalar,
  as in the one place that binds it.
\<close>

type_synonym metric = "np_float list \<Rightarrow> np_float list \<Rightarrow> np_float \<Rightarrow> error + np_float"

definition mse :: metric where
  "mse y y_hat var_y =
     (case array_sub y y_hat of Inl e \<Rightarrow> Inl e
      | Inr d \<Rightarrow> Inr (np_mean (map np_square d)))"

definition rmse :: metric where
  "rmse y y_hat var_y =
     (case array_sub y y_hat of Inl e \<Rightarrow> Inl e
      | Inr d \<Rightarrow> Inr (np_sqrt (np_mean (map np_square d))))"

definition nmse :: metric where
  "nmse y y_hat var_y =
     (case array_sub y y_hat of Inl e \<Rightarrow> Inl e
      | Inr d \<Rightarrow> Inr (np_mean (map (\<lambda>x. np_div (np_square x) var_y) d)))"

definition nrmse :: metric where
  "nrmse y y_hat var_y =
     (case array_sub y y_hat of Inl e \<Rightarrow> Inl e
      | Inr d \<Rightarrow> Inr (np_sqrt (np_mean (map (\<lambda>x. np_div (np_square x) var_y) d))))"

definition make_fitness :: "string \<Rightarrow> error + metric" where
  "make_fitness metric =
     (if metric = ''mse'' then Inr mse
      else if metric = ''rmse'' then Inr rmse
      else if metric = ''nmse'' then Inr nmse
      else if metric = ''nrmse'' then Inr nrmse
      else Inl (ValueError ''Metric not recognized.''))"

text \<open>
  The reference definitions, following the words of the specification:
  \<open>mse = mean((y - y_hat)^2)\<close>, \<open>rmse = sqrt(mse)\<close>,
  \<open>nmse = mean((y - y_hat)^2 / var_y)\<close>, \<open>nrmse = sqrt(nmse)\<close>.
\<close>

definition spec_mse :: metric where
  "spec_mse y y_hat var_y = map_sum id (\<lambda>d. np_mean (map np_square d)) (array_sub y y_hat)"

definition spec_rmse :: metric where
  "spec_rmse y y_hat var_y = map_sum id np_sqrt (spec_mse y y_hat var_y)"

definition spec_nmse :: metric where
  "spec_nmse y y_hat var_y =
     map_sum id (\<lambda>d. np_mean (map (\<lambda>x. np_div x var_y) (map np_square d))) (array_sub y y_hat)"

definition spec_nrmse :: metric where
  "spec_nrmse y y_hat var_y = map_sum id np_sqrt (spec_nmse y y_hat var_y)"

definition is_finite :: "np_float \<Rightarrow> bool" where
  "is_finite x = (case x of Fin _ \<Rightarrow> True | _ \<Rightarrow> False)"

section \<open>Expression trees, individuals and the external collaborators of the evaluator\<close>

text \<open>
  An individual is the expression-tree library's \<open>PrimitiveTree\<close>, a list of nodes in
  prefix order, with a fitness attribute. A node has a name and an arity; a terminal built
  from a number carries that number, a terminal registered under a name carries the name.
  The fitness holds a tuple of values; it is valid when the tuple is not empty, and
  deleting the values empties it.
\<close>

datatype node_value = NoValue | Symbolic string | Literal np_float

record node =
  name :: string
  arity :: nat
  terminal_value :: node_value

record individual =
  nodes :: "node list"
  fitness_values :: "np_float list"

definition valid :: "individual \<Rightarrow> bool" where
  "valid ind = (fitness_values ind \<noteq> [])"

text \<open>
  The two statements \<open>individual[i] = gp.Terminal(const, False, object)\<close> and
  \<open>individual[i].name = "const"\<close> build this node: a terminal (arity 0) holding the
  number, renamed to the constant tag before anything reads its name.
\<close>

definition const_terminal :: "np_float \<Rightarrow> node" where
  "const_terminal c = \<lparr>name = ''const'', arity = 0, terminal_value = Literal c\<rparr>"

text \<open>
  Item assignment on a \<open>PrimitiveTree\<close> is the library's: it refuses a node whose arity
  differs from the arity of the node it replaces.
\<close>

definition setitem :: "node list \<Rightarrow> nat \<Rightarrow> node \<Rightarrow> error + node list" where
  "setitem tree i v =
     (if length tree \<le> i then Inl IndexError
      else if arity v \<noteq> arity (tree ! i)
      then Inl (ValueError ''Invalid node replacement with a node of a different arity.'')
      else Inr (tree[i := v]))"

text \<open>
  The loop \<open>for i, const in zip(const_idxs, consts): individual[i] = ...\<close>, which the
  source has twice (in the objective and after the optimization). The tree is mutated in
  place, so the tree as it is when an assignment raises is returned with the exception.
\<close>

fun set_consts :: "node list \<Rightarrow> (nat \<times> np_float) list \<Rightarrow> error option \<times> node list" where
  "set_consts tree [] = (None, tree)"
| "set_consts tree ((i, c) # rest) =
     (case setitem tree i (const_terminal c) of
        Inl e \<Rightarrow> (Some e, tree)
      | Inr tree' \<Rightarrow> set_consts tree' rest)"

text \<open>
  The constant optimizer is a black box \<open>const_opt(obj, x0)\<close>. One run of it either
  returns a vector, or raises, or calls the objective at a point and goes on according to
  what the objective returned or raised. The optimizer is the function from \<open>x0\<close> to its
  run; it is deterministic and every run ends.
\<close>

datatype optimizer_run =
    Return "np_float list"
  | Raise error
  | Call_obj "np_float list" "error + np_float \<Rightarrow> optimizer_run"

type_synonym optimizer = "np_float list \<Rightarrow> optimizer_run"

text \<open>
  Running the optimizer against an objective that mutates the tree: the result and the
  tree after the last call of the objective.
\<close>

primrec run_optimizer ::
  "optimizer_run \<Rightarrow> (node list \<Rightarrow> np_float list \<Rightarrow> (error + np_float) \<times> node list)
     \<Rightarrow> node list \<Rightarrow> (error + np_float list) \<times> node list" where
  "run_optimizer (Return r) objective tree = (Inr r, tree)"
| "run_optimizer (Raise e) objective tree = (Inl e, tree)"
| "run_optimizer (Call_obj consts k) objective tree =
     (case objective tree consts of (r, tree') \<Rightarrow> run_optimizer (k r) objective tree')"

text \<open>
  A compiled expression takes one argument per input variable (the rows of the transposed
  input matrix) and returns the predictions; compiling and running may both raise.
\<close>

type_synonym compiled = "np_float list list \<Rightarrow> error + np_float list"

type_synonym compiler = "node list \<Rightarrow> error + compiled"

record dataset =
  X_train :: "np_float list list"
  X_test :: "np_float list list"
  y_train :: "np_float list"
  y_test :: "np_float list"

section \<open>The evaluator: \<open>GenericEvaluate\<close>\<close>

text \<open>
  Of the toolbox the evaluator uses \<open>compile\<close> only; the field \<open>toolbox\<close> holds it, and is
  \<open>None\<close> until \<open>set_toolbox\<close>. \<open>const_opt\<close> is \<open>None\<close> when no optimizer was made.
  The hall of fame is the list of its items, best first.
\<close>

record evaluator =
  toolbox :: "compiler option"
  const_opt :: "optimizer option"
  hof :: "individual list"
  X_train :: "np_float list list"
  X_test :: "np_float list list"
  y_train :: "np_float list"
  optimize :: bool
  early_stopping :: bool
  threshold :: np_float
  train_fitness :: "np_float list \<Rightarrow> error + np_float"
  test_fitness :: "np_float list \<Rightarrow> error + np_float"

definition GenericEvaluate_init ::
  "optimizer option \<Rightarrow> individual list \<Rightarrow> dataset \<Rightarrow> bool \<Rightarrow> bool \<Rightarrow> np_float
     \<Rightarrow> error + evaluator" where
  "GenericEvaluate_init const_opt0 hof0 ds optimize0 early_stopping0 threshold0 =
     (case make_fitness ''nmse'' of
        Inl e \<Rightarrow> Inl e
      | Inr fitness \<Rightarrow>
          Inr \<lparr>toolbox = None,
               const_opt = const_opt0,
               hof = hof0,
               X_train = transpose (dataset.X_train ds),
               X_test = transpose (dataset.X_test ds),
               y_train = dataset.y_train ds,
               optimize = optimize0,
               early_stopping = early_stopping0,
               threshold = threshold0,
               train_fitness =
                 (\<lambda>y_hat. fitness (dataset.y_train ds) y_hat (np_var (dataset.y_train ds))),
               test_fitness =
                 (\<lambda>y_hat. fitness (dataset.y_test ds) y_hat (np_var (dataset.y_test ds)))\<rparr>)"

definition set_toolbox :: "evaluator \<Rightarrow> compiler \<Rightarrow> evaluator" where
  "set_toolbox self tb = self\<lparr>toolbox := Some tb\<rparr>"

text \<open>\<open>_finish_eval(self, individual, X, fitness)\<close>; the result is a 1-tuple.\<close>

definition finish_eval ::
  "evaluator \<Rightarrow> node list \<Rightarrow> np_float list list \<Rightarrow> (np_float list \<Rightarrow> error + np_float)
     \<Rightarrow> error + np_float list" where
  "finish_eval self tree X fitness =
     (case toolbox self of
        None \<Rightarrow> Inl AttributeError
      | Some compile \<Rightarrow>
          (case compile tree of
             Inl e \<Rightarrow> Inl e
           | Inr f \<Rightarrow>
               (case f X of
                  Inl e \<Rightarrow> Inl e
                | Inr y_hat \<Rightarrow>
                    (case fitness y_hat of
                       Inl e \<Rightarrow> Inl e
                     | Inr v \<Rightarrow> Inr [v]))))"

text \<open>
  The condition of the early-stopping test, with the short-circuit \<open>and\<close>: the incumbent
  is compiled and run only when early stopping is on and the hall of fame is not empty.
\<close>

definition early_stop_reached :: "evaluator \<Rightarrow> error + bool" where
  "early_stop_reached self =
     (if early_stopping self \<and> length (hof self) > 0
      then (case finish_eval self (nodes (hof self ! 0)) (X_test self) (test_fitness self) of
              Inl e \<Rightarrow> Inl e
            | Inr fit \<Rightarrow> Inr (np_less (fit ! 0) (threshold self)))
      else Inr False)"

text \<open>
  The objective \<open>obj(consts)\<close> of the constant optimization, a closure over the
  individual, which it mutates: it returns its value or exception and the tree it leaves.
\<close>

definition obj ::
  "evaluator \<Rightarrow> nat list \<Rightarrow> node list \<Rightarrow> np_float list \<Rightarrow> (error + np_float) \<times> node list" where
  "obj self const_idxs tree consts =
     (case set_consts tree (zip const_idxs consts) of
        (Some e, tree') \<Rightarrow> (Inl e, tree')
      | (None, tree') \<Rightarrow>
          (case toolbox self of
             None \<Rightarrow> (Inl AttributeError, tree')
           | Some compile \<Rightarrow>
               (case compile tree' of
                  Inl e \<Rightarrow> (Inl e, tree')
                | Inr f \<Rightarrow>
                    (case f (X_train self) of
                       Inl e \<Rightarrow> (Inl e, tree')
                     | Inr y_hat \<Rightarrow>
                         (case array_sub (y_train self) y_hat of
                            Inl e \<Rightarrow> (Inl e, tree')
                          | Inr d \<Rightarrow> (Inr (np_mean (map np_square d)), tree'))))))"

text \<open>
  \<open>__call__(self, individual)\<close>. The result is the fitness tuple, the individual as the
  call leaves it, and the list of the initial vectors \<open>x0\<close> the constant optimizer was
  called with during the call (a record of the calls; the source has no such value).
\<close>

definition GenericEvaluate_call ::
  "evaluator \<Rightarrow> individual \<Rightarrow> error + (np_float list \<times> individual \<times> np_float list list)" where
  "GenericEvaluate_call self ind =
     (if toolbox self = None then Inl (AssertionError ''Must set toolbox first.'')
      else
        let const_idxs = filter (\<lambda>i. name (nodes ind ! i) = ''const'') [0..<length (nodes ind)]
        in
        (case (if optimize self then early_stop_reached self else Inr False) of
           Inl e \<Rightarrow> Inl e
         | Inr True \<Rightarrow> Inr ([Fin 1], ind, [])
         | Inr False \<Rightarrow>
             if optimize self \<and> length const_idxs > 0
             then
               let x0 = np_ones (length const_idxs) in
               (case const_opt self of
                  None \<Rightarrow> Inl TypeError
                | Some opt \<Rightarrow>
                    (case run_optimizer (opt x0) (obj self const_idxs) (nodes ind) of
                       (Inl e, tree1) \<Rightarrow> Inl e
                     | (Inr optimized_consts, tree1) \<Rightarrow>
                         (case set_consts tree1 (zip const_idxs optimized_consts) of
                            (Some e, tree2) \<Rightarrow> Inl e
                          | (None, tree2) \<Rightarrow>
                              (case finish_eval self tree2 (X_train self) (train_fitness self) of
                                 Inl e \<Rightarrow> Inl e
                               | Inr fit \<Rightarrow> Inr (fit, ind\<lparr>nodes := tree2\<rparr>, [x0])))))
             else
               (case finish_eval self (nodes ind) (X_train self) (train_fitness self) of
                  Inl e \<Rightarrow> Inl e
                | Inr fit \<Rightarrow> Inr (fit, ind, []))))"

section \<open>The world of the generational algorithm\<close>

text \<open>
  Individuals are objects: a population is a list of references, and the same object may
  be listed twice. The store maps a reference to the object. The state that the run
  threads is the store, the state of Python's global random source, and two pieces of
  process-wide state: the names of the classes registered in the module \<open>creator\<close>
  (\<open>create_toolbox\<close> registers \<open>FitnessMin\<close> and \<open>Individual\<close> there) and whether the
  module \<open>gp\<close> has an attribute \<open>const\<close>.
\<close>

type_synonym addr = nat

record 'r world =
  heap :: "addr \<Rightarrow> individual"
  rng :: "'r"
  creator :: "string set"
  gp_const :: bool

text \<open>
  The operations registered in the toolbox are external. Selection, cloning, crossover,
  mutation and the creation of the population act on the world and may raise.
  \<open>evaluate\<close> is given the individual and returns the fitness tuple and the individual as
  the call leaves it; its first argument is the content of the hall of fame of the run,
  which an evaluator that shares the hall-of-fame object reads. \<open>toolbox.map\<close> is
  Python's built-in \<open>map\<close>.
\<close>

record 'r toolbox_ops =
  evaluate :: "individual list option \<Rightarrow> individual \<Rightarrow> error + (np_float list \<times> individual)"
  select :: "addr list \<Rightarrow> nat \<Rightarrow> 'r world \<Rightarrow> error + (addr list \<times> 'r world)"
  clone :: "addr \<Rightarrow> 'r world \<Rightarrow> error + (addr \<times> 'r world)"
  mate :: "addr \<Rightarrow> addr \<Rightarrow> 'r world \<Rightarrow> error + ((addr \<times> addr) \<times> 'r world)"
  mutate :: "addr \<Rightarrow> 'r world \<Rightarrow> error + (addr \<times> 'r world)"
  population :: "int \<Rightarrow> 'r world \<Rightarrow> error + (addr list \<times> 'r world)"

text \<open>
  What the run uses of Python's \<open>random\<close> module and of the hall-of-fame class:
  \<open>random.seed\<close>, \<open>random.random\<close> and \<open>HallOfFame.update\<close>. The hall of fame keeps
  copies, so its content is a list of individuals.
\<close>

record 'r library =
  random_seed :: "int \<Rightarrow> 'r"
  random_random :: "'r \<Rightarrow> real \<times> 'r"
  HallOfFame_update :: "individual list \<Rightarrow> individual list \<Rightarrow> individual list"

text \<open>One entry of the logbook: \<open>logbook.record(gen=..., nevals=..., **record)\<close>.\<close>

record 's log_record =
  gen :: int
  nevals :: nat
  stats_record :: "'s option"

text \<open>\<open>del ind.fitness.values\<close> on the object behind a reference.\<close>

definition del_fitness_values :: "addr \<Rightarrow> 'r world \<Rightarrow> 'r world" where
  "del_fitness_values a w = w\<lparr>heap := (heap w)(a := (heap w a)\<lparr>fitness_values := []\<rparr>)\<rparr>"

text \<open>\<open>record = stats.compile(population) if stats else {}\<close>\<close>

definition compile_stats ::
  "(individual list \<Rightarrow> error + 's) option \<Rightarrow> individual list \<Rightarrow> error + 's option" where
  "compile_stats stats inds =
     (case stats of
        None \<Rightarrow> Inr None
      | Some compile \<Rightarrow> (case compile inds of Inl e \<Rightarrow> Inl e | Inr r \<Rightarrow> Inr (Some r)))"

section \<open>The generational algorithm: \<open>GenericAlgorithm\<close>\<close>

text \<open>
  The loop \<open>for ind, fit in zip(invalid_ind, fitnesses): ind.fitness.values = fit\<close> over
  the lazy \<open>map\<close>: each individual is evaluated and then assigned its fitness before the
  next one is evaluated.
\<close>

fun assign_fitnesses ::
  "(individual \<Rightarrow> error + (np_float list \<times> individual)) \<Rightarrow> addr list \<Rightarrow> (addr \<Rightarrow> individual)
     \<Rightarrow> error + (addr \<Rightarrow> individual)" where
  "assign_fitnesses ev [] h = Inr h"
| "assign_fitnesses ev (a # rest) h =
     (case ev (h a) of
        Inl e \<Rightarrow> Inl e
      | Inr (fit, ind') \<Rightarrow> assign_fitnesses ev rest (h(a := ind'\<lparr>fitness_values := fit\<rparr>)))"

text \<open>
  \<open>_eval(self, population, halloffame)\<close>. The name \<open>toolbox\<close> in its body is not a
  parameter: it is looked up among the globals of the module, given here as
  \<open>toolbox_global\<close>, \<open>None\<close> when the module has no such global.
\<close>

definition GenericAlgorithm_eval ::
  "'r library \<Rightarrow> 'r toolbox_ops option \<Rightarrow> addr list \<Rightarrow> individual list option \<Rightarrow> 'r world
     \<Rightarrow> error + ((addr list \<times> individual list option \<times> addr list) \<times> 'r world)" where
  "GenericAlgorithm_eval lib toolbox_global pop halloffame w =
     (let invalid_ind = filter (\<lambda>a. \<not> valid (heap w a)) pop in
      case toolbox_global of
        None \<Rightarrow> Inl (NameError ''toolbox'')
      | Some tb \<Rightarrow>
          (case assign_fitnesses (evaluate tb halloffame) invalid_ind (heap w) of
             Inl e \<Rightarrow> Inl e
           | Inr h' \<Rightarrow>
               let halloffame' =
                     (case halloffame of
                        None \<Rightarrow> None
                      | Some items \<Rightarrow> Some (HallOfFame_update lib items (map h' pop)))
               in Inr ((pop, halloffame', invalid_ind), w\<lparr>heap := h'\<rparr>)))"

text \<open>
  \<open>_header\<close>: the header line of the logbook and the printing are left out; the logbook
  is the list of its records.
\<close>

definition GenericAlgorithm_header ::
  "'r library \<Rightarrow> 'r toolbox_ops option \<Rightarrow> addr list \<Rightarrow> 'r toolbox_ops
     \<Rightarrow> (individual list \<Rightarrow> error + 's) option \<Rightarrow> individual list option \<Rightarrow> bool \<Rightarrow> 'r world
     \<Rightarrow> error + (('s log_record list \<times> individual list option) \<times> 'r world)" where
  "GenericAlgorithm_header lib toolbox_global pop tb stats halloffame verbose w =
     (case GenericAlgorithm_eval lib toolbox_global pop halloffame w of
        Inl e \<Rightarrow> Inl e
      | Inr ((pop', halloffame', invalid_ind), w') \<Rightarrow>
          (case compile_stats stats (map (heap w') pop') of
             Inl e \<Rightarrow> Inl e
           | Inr record \<Rightarrow>
               Inr (([\<lparr>gen = 0, nevals = length invalid_ind, stats_record = record\<rparr>],
                     halloffame'), w')))"

text \<open>\<open>offspring = [toolbox.clone(ind) for ind in population]\<close>\<close>

fun clone_all ::
  "'r toolbox_ops \<Rightarrow> addr list \<Rightarrow> 'r world \<Rightarrow> error + (addr list \<times> 'r world)" where
  "clone_all tb [] w = Inr ([], w)"
| "clone_all tb (a # rest) w =
     (case clone tb a w of
        Inl e \<Rightarrow> Inl e
      | Inr (a', w1) \<Rightarrow>
          (case clone_all tb rest w1 of
             Inl e \<Rightarrow> Inl e
           | Inr (rest', w2) \<Rightarrow> Inr (a' # rest', w2)))"

text \<open>The crossover loop of \<open>_var_and\<close>, over the indices \<open>range(1, len(offspring), 2)\<close>.\<close>

fun crossover_loop ::
  "'r library \<Rightarrow> 'r toolbox_ops \<Rightarrow> real \<Rightarrow> nat list \<Rightarrow> addr list \<Rightarrow> 'r world
     \<Rightarrow> error + (addr list \<times> 'r world)" where
  "crossover_loop lib tb cxpb [] offspring w = Inr (offspring, w)"
| "crossover_loop lib tb cxpb (i # rest) offspring w =
     (case random_random lib (rng w) of
        (u, r1) \<Rightarrow>
          if u < cxpb
          then (case mate tb (offspring ! (i - 1)) (offspring ! i) (w\<lparr>rng := r1\<rparr>) of
                  Inl e \<Rightarrow> Inl e
                | Inr ((c1, c2), w1) \<Rightarrow>
                    crossover_loop lib tb cxpb rest (offspring[i - 1 := c1, i := c2])
                      (del_fitness_values c2 (del_fitness_values c1 w1)))
          else crossover_loop lib tb cxpb rest offspring (w\<lparr>rng := r1\<rparr>))"

text \<open>The mutation loop of \<open>_var_and\<close>, over the indices \<open>range(len(offspring))\<close>.\<close>

fun mutation_loop ::
  "'r library \<Rightarrow> 'r toolbox_ops \<Rightarrow> real \<Rightarrow> nat list \<Rightarrow> addr list \<Rightarrow> 'r world
     \<Rightarrow> error + (addr list \<times> 'r world)" where
  "mutation_loop lib tb mutpb [] offspring w = Inr (offspring, w)"
| "mutation_loop lib tb mutpb (i # rest) offspring w =
     (case random_random lib (rng w) of
        (u, r1) \<Rightarrow>
          if u < mutpb
          then (case mutate tb (offspring ! i) (w\<lparr>rng := r1\<rparr>) of
                  Inl e \<Rightarrow> Inl e
                | Inr (m, w1) \<Rightarrow>
                    mutation_loop lib tb mutpb rest (offspring[i := m]) (del_fitness_values m w1))
          else mutation_loop lib tb mutpb rest offspring (w\<lparr>rng := r1\<rparr>))"

definition GenericAlgorithm_var_and ::
  "'r library \<Rightarrow> addr list \<Rightarrow> 'r toolbox_ops \<Rightarrow> real \<Rightarrow> real \<Rightarrow> 'r world
     \<Rightarrow> error + (addr list \<times> 'r world)" where
  "GenericAlgorithm_var_and lib pop tb cxpb mutpb w =
     (case clone_all tb pop w of
        Inl e \<Rightarrow> Inl e
      | Inr (offspring, w1) \<Rightarrow>
          (case crossover_loop lib tb cxpb (filter odd [1..<length offspring]) offspring w1 of
             Inl e \<Rightarrow> Inl e
           | Inr (offspring', w2) \<Rightarrow>
               mutation_loop lib tb mutpb [0..<length offspring'] offspring' w2))"

text \<open>
  The state of the generational loop of \<open>__call__\<close>: the population, the logbook, the
  hall of fame and the world. \<open>generation\<close> is the body of the loop for one value of
  \<open>gen\<close>.
\<close>

type_synonym ('r, 's) loop_state =
  "addr list \<times> 's log_record list \<times> individual list option \<times> 'r world"

definition generation ::
  "'r library \<Rightarrow> 'r toolbox_ops option \<Rightarrow> 'r toolbox_ops \<Rightarrow> real \<Rightarrow> real
     \<Rightarrow> (individual list \<Rightarrow> error + 's) option \<Rightarrow> int \<Rightarrow> ('r, 's) loop_state
     \<Rightarrow> error + ('r, 's) loop_state" where
  "generation lib toolbox_global tb cxpb mutpb stats g st =
     (case st of
        (pop, logbook, halloffame, w) \<Rightarrow>
          (case select tb pop (length pop) w of
             Inl e \<Rightarrow> Inl e
           | Inr (selected, w1) \<Rightarrow>
               (case GenericAlgorithm_var_and lib selected tb cxpb mutpb w1 of
                  Inl e \<Rightarrow> Inl e
                | Inr (varied, w2) \<Rightarrow>
                    (case GenericAlgorithm_eval lib toolbox_global varied halloffame w2 of
                       Inl e \<Rightarrow> Inl e
                     | Inr ((offspring, halloffame', invalid_ind), w3) \<Rightarrow>
                         (case compile_stats stats (map (heap w3) offspring) of
                            Inl e \<Rightarrow> Inl e
                          | Inr record \<Rightarrow>
                              Inr (offspring,
                                   logbook @ [\<lparr>gen = g, nevals = length invalid_ind,
                                               stats_record = record\<rparr>],
                                   halloffame', w3))))))"

fun generations_loop ::
  "'r library \<Rightarrow> 'r toolbox_ops option \<Rightarrow> 'r toolbox_ops \<Rightarrow> real \<Rightarrow> real
     \<Rightarrow> (individual list \<Rightarrow> error + 's) option \<Rightarrow> int list \<Rightarrow> ('r, 's) loop_state
     \<Rightarrow> error + ('r, 's) loop_state" where
  "generations_loop lib toolbox_global tb cxpb mutpb stats [] st = Inr st"
| "generations_loop lib toolbox_global tb cxpb mutpb stats (g # gs) st =
     (case generation lib toolbox_global tb cxpb mutpb stats g st of
        Inl e \<Rightarrow> Inl e
      | Inr st' \<Rightarrow> generations_loop lib toolbox_global tb cxpb mutpb stats gs st')"

text \<open>
  \<open>__call__\<close>: \<open>for gen in range(1, ngen + 1)\<close>. The hall of fame is updated in place;
  its final content is returned beside the value \<open>(population, logbook)\<close>.
\<close>

definition GenericAlgorithm_call ::
  "'r library \<Rightarrow> 'r toolbox_ops option \<Rightarrow> addr list \<Rightarrow> 'r toolbox_ops \<Rightarrow> real \<Rightarrow> real \<Rightarrow> int
     \<Rightarrow> (individual list \<Rightarrow> error + 's) option \<Rightarrow> individual list option \<Rightarrow> bool \<Rightarrow> 'r world
     \<Rightarrow> error + ((addr list \<times> 's log_record list) \<times> individual list option \<times> 'r world)" where
  "GenericAlgorithm_call lib toolbox_global pop tb cxpb mutpb ngen stats halloffame verbose w =
     (case GenericAlgorithm_header lib toolbox_global pop tb stats halloffame verbose w of
        Inl e \<Rightarrow> Inl e
      | Inr ((logbook, halloffame'), w') \<Rightarrow>
          (case generations_loop lib toolbox_global tb cxpb mutpb stats [1..ngen]
                  (pop, logbook, halloffame', w') of
             Inl e \<Rightarrow> Inl e
           | Inr (pop', logbook', halloffame'', w'') \<Rightarrow>
               Inr ((pop', logbook'), halloffame'', w'')))"

section \<open>The training driver: \<open>generic_train\<close>\<close>

text \<open>
  The statistics object built by \<open>generic_train\<close>: the mean and the minimum of the fitness
  values and the mean of the sizes. \<open>np.min\<close> propagates \<open>nan\<close> and raises on an empty
  array; an array cannot be built from tuples of different lengths.
\<close>

definition np_minimum :: "np_float \<Rightarrow> np_float \<Rightarrow> np_float" where
  "np_minimum a b = (if a = NaN \<or> b = NaN then NaN else if np_less b a then b else a)"

definition np_min :: "np_float list \<Rightarrow> error + np_float" where
  "np_min xs =
     (case xs of
        [] \<Rightarrow> Inl (ValueError ''zero-size array to reduction operation minimum which has no identity'')
      | x # rest \<Rightarrow> Inr (foldl np_minimum x rest))"

record mstats_record =
  fitness_avg :: np_float
  fitness_min :: np_float
  size_avg :: np_float

definition mstats_compile :: "individual list \<Rightarrow> error + mstats_record" where
  "mstats_compile inds =
     (if \<exists>i \<in> set inds. length (fitness_values i) \<noteq> length (fitness_values (hd inds))
      then Inl (ExternalError ''inhomogeneous shape'')
      else
        let fitness_array = concat (map fitness_values inds) in
        (case np_min fitness_array of
           Inl e \<Rightarrow> Inl e
         | Inr m \<Rightarrow>
             Inr \<lparr>fitness_avg = np_mean fitness_array,
                  fitness_min = m,
                  size_avg = np_mean (map (\<lambda>i. Fin (real (length (nodes i)))) inds)\<rparr>))"

text \<open>
  \<open>generic_train\<close>. The algorithm is a parameter, as in the source. After the algorithm
  has returned, \<open>del creator.FitnessMin\<close> and \<open>del creator.Individual\<close> remove the two
  classes from the module and raise \<open>AttributeError\<close> when the class is not there;
  \<open>gp.const\<close> is deleted only when present. The result is \<open>(hof[0], logbook)\<close>; \<open>hof\<close>
  is the hall-of-fame object after the run.
\<close>

definition generic_train ::
  "'r library \<Rightarrow> 'r toolbox_ops \<Rightarrow> individual list option
     \<Rightarrow> (addr list \<Rightarrow> 'r toolbox_ops \<Rightarrow> real \<Rightarrow> real \<Rightarrow> int
           \<Rightarrow> (individual list \<Rightarrow> error + mstats_record) option \<Rightarrow> individual list option \<Rightarrow> bool
           \<Rightarrow> 'r world
           \<Rightarrow> error + ((addr list \<times> mstats_record log_record list) \<times> individual list option \<times> 'r world))
     \<Rightarrow> int \<Rightarrow> real \<Rightarrow> real \<Rightarrow> int \<Rightarrow> int \<Rightarrow> bool \<Rightarrow> 'r world
     \<Rightarrow> error + ((individual \<times> mstats_record log_record list) \<times> 'r world)" where
  "generic_train lib tb halloffame algorithm population_size p_crossover p_mutate generations seed
       verbose w =
     (let w0 = w\<lparr>rng := random_seed lib seed\<rparr> in
      case population tb population_size w0 of
        Inl e \<Rightarrow> Inl e
      | Inr (pop, w1) \<Rightarrow>
          (case algorithm pop tb p_crossover p_mutate generations (Some mstats_compile)
                  halloffame verbose w1 of
             Inl e \<Rightarrow> Inl e
           | Inr ((pop', logbook), halloffame', w2) \<Rightarrow>
               if ''FitnessMin'' \<in> creator w2
               then
                 if ''Individual'' \<in> creator w2
                 then
                   let w3 = w2\<lparr>creator := creator w2 - {''FitnessMin'', ''Individual''},
                               gp_const := False\<rparr>
                   in
                   (case halloffame' of
                      None \<Rightarrow> Inl TypeError
                    | Some [] \<Rightarrow> Inl IndexError
                    | Some (best # _) \<Rightarrow> Inr ((best, logbook), w3))
                 else Inl AttributeError
               else Inl AttributeError))"

text \<open>
  \<open>toolbox.register("evaluate", eval_func)\<close> with the evaluator as \<open>eval_func\<close>. The
  main program gives the evaluator the hall-of-fame object of the run, so the evaluator
  reads the current content of that hall of fame.
\<close>

definition registered_evaluate ::
  "evaluator \<Rightarrow> individual list option \<Rightarrow> individual \<Rightarrow> error + (np_float list \<times> individual)" where
  "registered_evaluate ev halloffame ind =
     (case GenericEvaluate_call (case halloffame of None \<Rightarrow> ev | Some items \<Rightarrow> ev\<lparr>hof := items\<rparr>) ind of
        Inl e \<Rightarrow> Inl e
      | Inr (fit, ind', calls) \<Rightarrow> Inr (fit, ind'))"

section \<open>Notions for the statements and the proofs\<close>

text \<open>
  \<open>evaluated_times ev n ind\<close>: the individual after \<open>n\<close> rounds of evaluating it and
  assigning it the fitness returned, or the exception of the first round that raises.
\<close>

fun evaluated_times ::
  "(individual \<Rightarrow> error + (np_float list \<times> individual)) \<Rightarrow> nat \<Rightarrow> individual
     \<Rightarrow> error + individual" where
  "evaluated_times ev 0 ind = Inr ind"
| "evaluated_times ev (Suc n) ind =
     (case ev ind of
        Inl e \<Rightarrow> Inl e
      | Inr (fit, ind') \<Rightarrow> evaluated_times ev n (ind'\<lparr>fitness_values := fit\<rparr>))"

text \<open>
  \<open>slots_only idxs t t'\<close>: the tree \<open>t'\<close> has the length and the node names of \<open>t\<close> and
  differs from it at most at the positions \<open>idxs\<close>.
\<close>

definition slots_only :: "nat list \<Rightarrow> node list \<Rightarrow> node list \<Rightarrow> bool" where
  "slots_only idxs t t' \<longleftrightarrow>
     length t' = length t \<and> map name t' = map name t \<and>
     (\<forall>i. i \<notin> set idxs \<longrightarrow> t' ! i = t ! i)"

section \<open>An example run\<close>

text \<open>
  A small instance on which the definitions are evaluated: two training points of
  \<open>y = 2 x\<close>, a compiler under which an expression predicts the values of its terminals, an
  optimizer that calls the objective once and returns \<open>[2, 4]\<close>, an individual of two
  constant slots and one that is a single variable.
\<close>

definition example_dataset :: dataset where
  "example_dataset =
     \<lparr>dataset.X_train = [[Fin 1], [Fin 2]], dataset.X_test = [[Fin 1], [Fin 2]],
      dataset.y_train = [Fin 2, Fin 4], dataset.y_test = [Fin 2, Fin 4]\<rparr>"

definition example_compile :: compiler where
  "example_compile tree =
     Inr (\<lambda>X. Inr (map (\<lambda>n. case terminal_value n of Literal c \<Rightarrow> c | _ \<Rightarrow> Fin 1) tree))"

definition example_optimizer :: optimizer where
  "example_optimizer x0 = Call_obj x0 (\<lambda>r. Return [Fin 2, Fin 4])"

definition example_evaluator :: "bool \<Rightarrow> bool \<Rightarrow> individual list \<Rightarrow> evaluator" where
  "example_evaluator optimize0 early_stopping0 items =
     set_toolbox
       (projr (GenericEvaluate_init (Some example_optimizer) items example_dataset
                 optimize0 early_stopping0 (Fin (1 / 10 ^ 12))))
       example_compile"

definition const_slot :: node where
  "const_slot = \<lparr>name = ''const'', arity = 0, terminal_value = Symbolic ''const''\<rparr>"

definition example_individual :: individual where
  "example_individual = \<lparr>nodes = [const_slot, const_slot], fitness_values = []\<rparr>"

definition example_optimized :: individual where
  "example_optimized =
     \<lparr>nodes = [const_terminal (Fin 2), const_terminal (Fin 4)], fitness_values = []\<rparr>"

definition example_evaluated :: individual where
  "example_evaluated = example_optimized\<lparr>fitness_values := [Fin 0]\<rparr>"

definition example_plain :: individual where
  "example_plain =
     \<lparr>nodes = [\<lparr>name = ''x1'', arity = 0, terminal_value = Symbolic ''x1''\<rparr>],
      fitness_values = []\<rparr>"

definition example_hof :: "individual list" where
  "example_hof = [example_optimized]"

text \<open>
  A random source that alternates between \<open>0\<close> and \<open>1\<close>, a hall of fame of one item, and a
  toolbox whose selection cycles through the population and whose cloning copies an object
  to a new reference.
\<close>

definition example_library :: "nat library" where
  "example_library =
     \<lparr>random_seed = (\<lambda>s. nat s),
      random_random = (\<lambda>r. (if even r then 0 else 1, Suc r)),
      HallOfFame_update = (\<lambda>items p. take 1 (p @ items))\<rparr>"

definition example_toolbox :: "nat toolbox_ops" where
  "example_toolbox =
     \<lparr>evaluate = registered_evaluate (example_evaluator True False []),
      select = (\<lambda>p k w. Inr (map (\<lambda>i. p ! (i mod length p)) [0..<k], w)),
      clone = (\<lambda>a w. Inr (a + 10, w\<lparr>heap := (heap w)(a + 10 := heap w a)\<rparr>)),
      mate = (\<lambda>a b w. Inr ((a, b), w)),
      mutate = (\<lambda>a w. Inr (a, w)),
      population = (\<lambda>n w. Inr ([0..<nat n], w))\<rparr>"

definition example_world :: "nat world" where
  "example_world =
     \<lparr>heap = (\<lambda>a. if a = 2 then example_evaluated
                  else if a = 1 then example_plain else example_individual),
      rng = 0, creator = {''FitnessMin'', ''Individual''}, gp_const = False\<rparr>"

section \<open>Properties of the individual generator\<close>

lemma call_nonempty:
  "individuals g \<noteq> [] \<Longrightarrow>
   GenWithRLIndividuals_call g p mn mx c t r =
     (Inr (last (individuals g), r), g\<lparr>individuals := butlast (individuals g)\<rparr>)"
  by (simp add: GenWithRLIndividuals_call_def)

lemma call_empty:
  "individuals g = [] \<Longrightarrow>
   GenWithRLIndividuals_call g p mn mx c t r = (gp_gen_function g p mn mx t r, g)"
  by (simp add: GenWithRLIndividuals_call_def)

text \<open>
  The scenario of the specification: after \<open>insert_back [A, B]\<close> on an empty queue the
  first call dispenses \<open>B\<close>, the second \<open>A\<close>, and the third falls back to the random
  generator.
\<close>

lemma insert_back_two_calls:
  assumes "individuals g = []"
    and "g1 = snd (GenWithRLIndividuals_call (insert_back g [A, B]) p mn mx c t r)"
    and "g2 = snd (GenWithRLIndividuals_call g1 p mn mx c t r)"
  shows "fst (GenWithRLIndividuals_call (insert_back g [A, B]) p mn mx c t r) = Inr (B, r)"
    and "fst (GenWithRLIndividuals_call g1 p mn mx c t r) = Inr (A, r)"
    and "fst (GenWithRLIndividuals_call g2 p mn mx c t r) = gp_gen_function g p mn mx t r"
  using assms by (simp_all add: GenWithRLIndividuals_call_def insert_back_def)

text \<open>
  Claim C5. When the pending queue is non-empty, a call removes and returns the queue's last
  element and does not call the random generator: the result and the new queue are the same
  whatever the random generator is, and the random state is returned as it was. When the
  queue is empty the call is the random generator's call and the queue stays empty.
  \<open>insert_front\<close> puts its batch, in order, before the queued items and \<open>insert_back\<close>
  after them. After \<open>clear\<close> a call is the random generator's call, whatever was queued
  before.
\<close>

theorem C5_generator:
  fixes g :: "('i, 'p, 't, 'r) GenWithRLIndividuals"
  shows "(individuals g \<noteq> [] \<longrightarrow>
            (\<forall>f. fst (GenWithRLIndividuals_call (g\<lparr>gp_gen_function := f\<rparr>) p mn mx (c::'c) t r)
                   = Inr (last (individuals g), r)
               \<and> individuals (snd (GenWithRLIndividuals_call (g\<lparr>gp_gen_function := f\<rparr>) p mn mx c t r))
                   = butlast (individuals g)))
       \<and> (individuals g = [] \<longrightarrow>
            GenWithRLIndividuals_call g p mn mx c t r = (gp_gen_function g p mn mx t r, g))
       \<and> individuals (insert_front g xs) = xs @ individuals g
       \<and> individuals (insert_back g xs) = individuals g @ xs
       \<and> gp_gen_function (insert_front g xs) = gp_gen_function g
       \<and> gp_gen_function (insert_back g xs) = gp_gen_function g
       \<and> (\<forall>q. GenWithRLIndividuals_call (clear (g\<lparr>individuals := q\<rparr>)) p mn mx c t r
                = (gp_gen_function g p mn mx t r, clear g))"
  by (simp add: GenWithRLIndividuals_call_def insert_front_def insert_back_def clear_def)

theorem C5_generator_witness:
  "individuals \<lparr>individuals = [1, 2, 3 :: nat],
                gp_gen_function = (\<lambda>(p::unit) mn mx (t::unit) (r::nat). Inr (nat (mn + mx), Suc r))\<rparr> \<noteq> []
   \<and> fst (GenWithRLIndividuals_call
            \<lparr>individuals = [1, 2, 3 :: nat],
             gp_gen_function = (\<lambda>(p::unit) mn mx (t::unit) (r::nat). Inl TypeError)\<rparr>
            () 1 2 () () (7::nat)) = Inr (3, 7)
   \<and> GenWithRLIndividuals_call
        \<lparr>individuals = [],
         gp_gen_function = (\<lambda>(p::unit) mn mx (t::unit) (r::nat). Inr (nat (mn + mx), Suc r))\<rparr>
        () 1 2 () () (7::nat)
      = (Inr (3, 8),
         \<lparr>individuals = [],
          gp_gen_function = (\<lambda>(p::unit) mn mx (t::unit) (r::nat). Inr (nat (mn + mx), Suc r))\<rparr>)"
  using C5_generator
    [of "\<lparr>individuals = [1, 2, 3 :: nat],
          gp_gen_function = (\<lambda>(p::unit) mn mx (t::unit) (r::nat). Inr (nat (mn + mx), Suc r))\<rparr>"
        "()" 1 2 "()" "()" 7 "[]"]
    C5_generator
    [of "\<lparr>individuals = ([] :: nat list),
          gp_gen_function = (\<lambda>(p::unit) mn mx (t::unit) (r::nat). Inr (nat (mn + mx), Suc r))\<rparr>"
        "()" 1 2 "()" "()" 7 "[]"]
  by (simp add: GenWithRLIndividuals_call_def)

section \<open>Properties of the fitness metrics\<close>

lemma np_sub_self: "is_finite x \<Longrightarrow> np_sub x x = Fin 0"
  by (cases x) (simp_all add: np_sub_def is_finite_def)

lemma array_sub_self:
  "list_all is_finite y \<Longrightarrow> array_sub y y = Inr (replicate (length y) (Fin 0))"
  by (induction y) (simp_all add: array_sub_def np_sub_self)

lemma np_sum_zeros: "np_sum (replicate n (Fin 0)) = Fin 0"
  by (induction n) (simp_all add: np_sum_def)

lemma np_mean_zeros: "0 < n \<Longrightarrow> np_mean (replicate n (Fin 0)) = Fin 0"
  by (simp add: np_mean_def np_sum_zeros)

lemma np_div_zero: "v \<noteq> Fin 0 \<Longrightarrow> v \<noteq> NaN \<Longrightarrow> np_div (Fin 0) v = Fin 0"
  by (cases v) simp_all

lemma mse_self:
  "y \<noteq> [] \<Longrightarrow> list_all is_finite y \<Longrightarrow> mse y y v = Inr (Fin 0)"
  by (simp add: mse_def array_sub_self np_mean_zeros)

lemma rmse_self:
  "y \<noteq> [] \<Longrightarrow> list_all is_finite y \<Longrightarrow> rmse y y v = Inr (Fin 0)"
  by (simp add: rmse_def array_sub_self np_mean_zeros)

lemma nmse_self:
  "y \<noteq> [] \<Longrightarrow> list_all is_finite y \<Longrightarrow> v \<noteq> Fin 0 \<Longrightarrow> v \<noteq> NaN \<Longrightarrow> nmse y y v = Inr (Fin 0)"
  by (simp add: nmse_def array_sub_self np_mean_zeros np_div_zero)

lemma nrmse_self:
  "y \<noteq> [] \<Longrightarrow> list_all is_finite y \<Longrightarrow> v \<noteq> Fin 0 \<Longrightarrow> v \<noteq> NaN \<Longrightarrow> nrmse y y v = Inr (Fin 0)"
  by (simp add: nrmse_def array_sub_self np_mean_zeros np_div_zero)

lemma make_fitness_refines:
  "make_fitness ''mse'' = Inr spec_mse"
  "make_fitness ''rmse'' = Inr spec_rmse"
  "make_fitness ''nmse'' = Inr spec_nmse"
  "make_fitness ''nrmse'' = Inr spec_nrmse"
  by (auto simp: make_fitness_def fun_eq_iff mse_def rmse_def nmse_def nrmse_def
        spec_mse_def spec_rmse_def spec_nmse_def spec_nrmse_def o_def split: sum.splits)

lemma rmse_sqrt: "rmse y y_hat v = map_sum id np_sqrt (mse y y_hat v)"
  by (simp add: rmse_def mse_def split: sum.splits)

lemma nrmse_sqrt: "nrmse y y_hat v = map_sum id np_sqrt (nmse y y_hat v)"
  by (simp add: nrmse_def nmse_def split: sum.splits)

text \<open>
  Claim C7, as stated, fails: for a constant target the variance is \<open>0\<close>, every term of
  \<open>nmse(y, y, var_y)\<close> is \<open>0/0\<close>, and the result is \<open>nan\<close>, not \<open>0\<close>. The same
  happens to every metric on an empty \<open>y\<close> (the mean of nothing) and on a \<open>y\<close> that holds an
  infinity (\<open>inf - inf\<close>).
\<close>

theorem metrics_zero_counterexample:
  "make_fitness ''nmse'' = Inr nmse
   \<and> np_var [Fin 1, Fin 1] = Fin 0
   \<and> nmse [Fin 1, Fin 1] [Fin 1, Fin 1] (np_var [Fin 1, Fin 1]) = Inr NaN
   \<and> (Inr NaN :: error + np_float) \<noteq> Inr (Fin 0)
   \<and> make_fitness ''mse'' = Inr mse
   \<and> mse [] [] (Fin 1) = Inr NaN
   \<and> mse [PInf] [PInf] (Fin 1) = Inr NaN"
  by (simp add: make_fitness_def nmse_def mse_def array_sub_def np_var_def np_mean_def
      np_sum_def np_sub_def)

text \<open>
  Claim C7, amended. For each of the four names \<open>make_fitness\<close> returns the function of the
  reference definition; \<open>rmse\<close> is the square root of \<open>mse\<close> and \<open>nrmse\<close> the square root of
  \<open>nmse\<close>, at every argument; for a non-empty \<open>y\<close> of finite numbers \<open>mse(y, y, var_y)\<close> and
  \<open>rmse(y, y, var_y)\<close> are \<open>0\<close>, and so are \<open>nmse(y, y, var_y)\<close> and \<open>nrmse(y, y, var_y)\<close>
  when \<open>var_y\<close> is neither \<open>0\<close> nor \<open>nan\<close>.
\<close>

theorem metrics_zero_sqrt:
  "make_fitness ''mse'' = Inr mse \<and> mse = spec_mse
   \<and> make_fitness ''rmse'' = Inr rmse \<and> rmse = spec_rmse
   \<and> make_fitness ''nmse'' = Inr nmse \<and> nmse = spec_nmse
   \<and> make_fitness ''nrmse'' = Inr nrmse \<and> nrmse = spec_nrmse
   \<and> rmse y y_hat v = map_sum id np_sqrt (mse y y_hat v)
   \<and> nrmse y y_hat v = map_sum id np_sqrt (nmse y y_hat v)
   \<and> (y \<noteq> [] \<and> list_all is_finite y
        \<longrightarrow> mse y y v = Inr (Fin 0) \<and> rmse y y v = Inr (Fin 0))
   \<and> (y \<noteq> [] \<and> list_all is_finite y \<and> v \<noteq> Fin 0 \<and> v \<noteq> NaN
        \<longrightarrow> nmse y y v = Inr (Fin 0) \<and> nrmse y y v = Inr (Fin 0))"
proof -
  have m: "make_fitness ''mse'' = Inr mse" "make_fitness ''rmse'' = Inr rmse"
    "make_fitness ''nmse'' = Inr nmse" "make_fitness ''nrmse'' = Inr nrmse"
    by (simp_all add: make_fitness_def)
  have s: "mse = spec_mse" "rmse = spec_rmse" "nmse = spec_nmse" "nrmse = spec_nrmse"
    using make_fitness_refines m by simp_all
  show ?thesis
    using m s rmse_sqrt [of y y_hat v] nrmse_sqrt [of y y_hat v]
      mse_self [of y v] rmse_self [of y v] nmse_self [of y v] nrmse_self [of y v]
    by simp
qed

theorem metrics_zero_sqrt_witness:
  "[Fin 1, Fin 3] \<noteq> [] \<and> list_all is_finite [Fin 1, Fin 3] \<and> Fin 2 \<noteq> Fin 0 \<and> Fin 2 \<noteq> NaN
   \<and> mse [Fin 1, Fin 3] [Fin 1, Fin 3] (Fin 2) = Inr (Fin 0)
   \<and> rmse [Fin 1, Fin 3] [Fin 1, Fin 3] (Fin 2) = Inr (Fin 0)
   \<and> nmse [Fin 1, Fin 3] [Fin 1, Fin 3] (Fin 2) = Inr (Fin 0)
   \<and> nrmse [Fin 1, Fin 3] [Fin 1, Fin 3] (Fin 2) = Inr (Fin 0)"
proof -
  have h: "[Fin 1, Fin 3] \<noteq> [] \<and> list_all is_finite [Fin 1, Fin 3]
             \<and> Fin 2 \<noteq> Fin 0 \<and> Fin 2 \<noteq> NaN"
    by (simp add: is_finite_def)
  from metrics_zero_sqrt [of "[Fin 1, Fin 3]" "[Fin 1, Fin 3]" "Fin 2"] h
  show ?thesis by blast
qed

lemma init_ok:
  "GenericEvaluate_init c h ds o1 e t =
     Inr \<lparr>toolbox = None, const_opt = c, hof = h,
          X_train = transpose (dataset.X_train ds), X_test = transpose (dataset.X_test ds),
          y_train = dataset.y_train ds, optimize = o1, early_stopping = e, threshold = t,
          train_fitness = (\<lambda>y_hat. nmse (dataset.y_train ds) y_hat (np_var (dataset.y_train ds))),
          test_fitness = (\<lambda>y_hat. nmse (dataset.y_test ds) y_hat (np_var (dataset.y_test ds)))\<rparr>"
  by (simp add: GenericEvaluate_init_def make_fitness_def)

text \<open>
  Claim C8. For every name other than the four metrics \<open>make_fitness\<close> raises the
  \<open>ValueError\<close> "Metric not recognized." (the unsupported-metric error) and returns no
  function; for the four names it returns one. The error is raised by the factory itself, on
  the name alone, before any data is given. The one caller, the constructor of the
  evaluator, runs at setup and always succeeds.
\<close>

theorem unknown_metric_raises:
  "(metric \<notin> {''mse'', ''rmse'', ''nmse'', ''nrmse''}
      \<longrightarrow> make_fitness metric = Inl (ValueError ''Metric not recognized.''))
   \<and> ((\<exists>f. make_fitness metric = Inr f) \<longleftrightarrow> metric \<in> {''mse'', ''rmse'', ''nmse'', ''nrmse''})
   \<and> (\<exists>ev. GenericEvaluate_init c h ds o1 e t = Inr ev)"
  by (auto simp add: make_fitness_def init_ok)

theorem unknown_metric_raises_witness:
  "''mae'' \<notin> {''mse'', ''rmse'', ''nmse'', ''nrmse''}
   \<and> make_fitness ''mae'' = Inl (ValueError ''Metric not recognized.'')"
  using unknown_metric_raises [of "''mae''"] by simp

section \<open>Constant slots under the objective and the optimizer\<close>

lemma slots_only_refl: "slots_only idxs t t"
  by (simp add: slots_only_def)

lemma slots_only_trans:
  "slots_only idxs t t' \<Longrightarrow> slots_only idxs t' t'' \<Longrightarrow> slots_only idxs t t''"
  by (simp add: slots_only_def)

lemma setitem_slots_only:
  assumes "setitem t i (const_terminal c) = Inr t'" "i \<in> set idxs" "name (t ! i) = ''const''"
  shows "slots_only idxs t t'"
proof -
  from assms(1) have i: "i < length t" and t': "t' = t[i := const_terminal c]"
    by (auto simp: setitem_def split: if_splits)
  have "map name t' = (map name t)[i := ''const'']"
    by (simp add: t' map_update const_terminal_def)
  also have "\<dots> = map name t"
    using i assms(3) by (simp add: list_update_same_conv)
  finally have "map name t' = map name t" .
  moreover have "\<forall>j. j \<notin> set idxs \<longrightarrow> t' ! j = t ! j"
  proof (intro allI impI)
    fix j assume "j \<notin> set idxs"
    with assms(2) have "j \<noteq> i" by auto
    then show "t' ! j = t ! j" by (simp add: t')
  qed
  ultimately show ?thesis by (simp add: slots_only_def t')
qed

lemma set_consts_slots_only:
  "fst ` set ps \<subseteq> set idxs \<Longrightarrow> \<forall>i\<in>set idxs. name (t ! i) = ''const'' \<Longrightarrow>
   set_consts t ps = (eo, t') \<Longrightarrow> slots_only idxs t t'"
proof (induction ps arbitrary: t)
  case Nil
  then show ?case by (simp add: slots_only_refl)
next
  case (Cons p ps)
  obtain i c where p: "p = (i, c)" by (cases p)
  show ?case
  proof (cases "setitem t i (const_terminal c)")
    case (Inl e)
    with Cons.prems p show ?thesis by (simp add: slots_only_refl)
  next
    case (Inr t1)
    have i: "i \<in> set idxs" using Cons.prems(1) p by auto
    then have s1: "slots_only idxs t t1"
      using setitem_slots_only [OF Inr i] Cons.prems(2) by blast
    have names: "\<forall>j\<in>set idxs. name (t1 ! j) = ''const''"
    proof
      fix j assume j: "j \<in> set idxs"
      from Inr have t1: "t1 = t[i := const_terminal c]" and il: "i < length t"
        by (auto simp: setitem_def split: if_splits)
      show "name (t1 ! j) = ''const''"
        using Cons.prems(2) j il by (cases "j = i") (auto simp: t1 const_terminal_def)
    qed
    have "set_consts t1 ps = (eo, t')" using Cons.prems(3) p Inr by simp
    then have "slots_only idxs t1 t'"
      using Cons.IH [of t1] Cons.prems(1) names by auto
    with s1 show ?thesis by (rule slots_only_trans)
  qed
qed

lemma slots_only_name:
  assumes "slots_only idxs t t'" "i < length t"
  shows "name (t' ! i) = name (t ! i)"
proof -
  have l: "length t' = length t" and m: "map name t' = map name t"
    using assms(1) by (simp_all add: slots_only_def)
  have "name (t' ! i) = map name t' ! i"
    using assms(2) l by simp
  also have "\<dots> = name (t ! i)"
    using assms(2) m by simp
  finally show ?thesis .
qed

lemma slots_only_inv:
  assumes "slots_only idxs t t'" "\<forall>i\<in>set idxs. i < length t \<and> name (t ! i) = ''const''"
  shows "\<forall>i\<in>set idxs. i < length t' \<and> name (t' ! i) = ''const''"
proof
  fix i assume i: "i \<in> set idxs"
  then have il: "i < length t" and n: "name (t ! i) = ''const''" using assms(2) by simp_all
  have "length t' = length t" using assms(1) by (simp add: slots_only_def)
  then show "i < length t' \<and> name (t' ! i) = ''const''"
    using il n slots_only_name [OF assms(1) il] by simp
qed

lemma zip_fst_subset: "fst ` set (zip xs ys) \<subseteq> set xs"
  by (auto dest: set_zip_leftD)

lemma obj_slots_only:
  assumes "\<forall>i\<in>set idxs. name (t ! i) = ''const''"
    and "obj ev idxs t cs = (r, t')"
  shows "slots_only idxs t t'"
proof -
  obtain eo t1 where sc: "set_consts t (zip idxs cs) = (eo, t1)"
    by (cases "set_consts t (zip idxs cs)")
  have "slots_only idxs t t1"
    using set_consts_slots_only [OF zip_fst_subset assms(1) sc] .
  moreover have "t' = t1"
    using assms(2) sc by (auto simp: obj_def split: option.splits sum.splits)
  ultimately show ?thesis by simp
qed

lemma run_optimizer_slots_only:
  "\<forall>i\<in>set idxs. i < length t \<and> name (t ! i) = ''const'' \<Longrightarrow>
   run_optimizer run (obj ev idxs) t = (r, t') \<Longrightarrow> slots_only idxs t t'"
proof (induction run arbitrary: t)
  case (Return x)
  then show ?case by (simp add: slots_only_refl)
next
  case (Raise x)
  then show ?case by (simp add: slots_only_refl)
next
  case (Call_obj cs k)
  obtain v t1 where o: "obj ev idxs t cs = (v, t1)" by (cases "obj ev idxs t cs")
  have s1: "slots_only idxs t t1"
    using obj_slots_only [OF _ o] Call_obj.prems(1) by blast
  have inv: "\<forall>i\<in>set idxs. i < length t1 \<and> name (t1 ! i) = ''const''"
    using slots_only_inv [OF s1 Call_obj.prems(1)] .
  have run: "run_optimizer (k v) (obj ev idxs) t1 = (r, t')"
    using Call_obj.prems(2) o by simp
  have "slots_only idxs t1 t'"
    by (rule Call_obj.IH [OF rangeI inv run])
  with s1 show ?case by (rule slots_only_trans)
qed

lemma setitem_Inr:
  "setitem t i v = Inr t' \<Longrightarrow> i < length t \<and> t' = t[i := v]"
  by (simp add: setitem_def split: if_splits)

lemma set_consts_length: "set_consts t ps = (eo, t') \<Longrightarrow> length t' = length t"
proof (induction ps arbitrary: t)
  case Nil then show ?case by simp
next
  case (Cons p ps)
  obtain i c where p: "p = (i, c)" by (cases p)
  show ?case
  proof (cases "setitem t i (const_terminal c)")
    case (Inl e)
    with Cons.prems p show ?thesis by simp
  next
    case (Inr t1)
    then have "length t1 = length t" using setitem_Inr [of t i "const_terminal c" t1] by simp
    moreover have "set_consts t1 ps = (eo, t')" using Cons.prems p Inr by simp
    ultimately show ?thesis using Cons.IH [of t1] by simp
  qed
qed

lemma set_consts_other:
  "set_consts t ps = (eo, t') \<Longrightarrow> i \<notin> fst ` set ps \<Longrightarrow> t' ! i = t ! i"
proof (induction ps arbitrary: t)
  case Nil then show ?case by simp
next
  case (Cons p ps)
  obtain j c where p: "p = (j, c)" by (cases p)
  have ji: "j \<noteq> i" and ni: "i \<notin> fst ` set ps" using Cons.prems(2) p by auto
  show ?case
  proof (cases "setitem t j (const_terminal c)")
    case (Inl e)
    with Cons.prems p show ?thesis by simp
  next
    case (Inr t1)
    then have "t1 ! i = t ! i" using ji setitem_Inr [of t j "const_terminal c" t1] by simp
    moreover have "set_consts t1 ps = (eo, t')" using Cons.prems(1) p Inr by simp
    ultimately show ?thesis using Cons.IH [of t1] ni by simp
  qed
qed

lemma set_consts_written:
  "distinct (map fst ps) \<Longrightarrow> set_consts t ps = (None, t') \<Longrightarrow>
   \<forall>k<length ps. t' ! fst (ps ! k) = const_terminal (snd (ps ! k))"
proof (induction ps arbitrary: t)
  case Nil then show ?case by simp
next
  case (Cons p ps)
  obtain i c where p: "p = (i, c)" by (cases p)
  from Cons.prems(2) p obtain t1 where t1: "setitem t i (const_terminal c) = Inr t1"
    and rest: "set_consts t1 ps = (None, t')"
    by (cases "setitem t i (const_terminal c)") simp_all
  from t1 have il: "i < length t" and t1e: "t1 = t[i := const_terminal c]"
    using setitem_Inr [of t i "const_terminal c" t1] by simp_all
  have IH: "\<forall>k<length ps. t' ! fst (ps ! k) = const_terminal (snd (ps ! k))"
    using Cons.IH [OF _ rest] Cons.prems(1) by simp
  have ni: "i \<notin> fst ` set ps" using Cons.prems(1) p by auto
  have hd: "t' ! i = const_terminal c"
    using set_consts_other [OF rest ni] il by (simp add: t1e)
  show ?case
  proof (intro allI impI)
    fix k assume "k < length (p # ps)"
    then show "t' ! fst ((p # ps) ! k) = const_terminal (snd ((p # ps) ! k))"
      using hd IH p by (cases k) auto
  qed
qed

section \<open>Properties of the evaluator\<close>

text \<open>
  Claim C9. For every dataset and every setting of the other arguments the constructor of
  the evaluator succeeds and binds the training fitness to \<open>nmse\<close> with the training targets
  and their variance, and the test fitness to \<open>nmse\<close> with the test targets and their
  variance. The constructor has no metric argument: no configured metric name reaches it.
\<close>

theorem evaluator_uses_nmse:
  "\<exists>ev. GenericEvaluate_init c h ds o1 e t = Inr ev
      \<and> train_fitness ev = (\<lambda>y_hat. nmse (dataset.y_train ds) y_hat (np_var (dataset.y_train ds)))
      \<and> test_fitness ev = (\<lambda>y_hat. nmse (dataset.y_test ds) y_hat (np_var (dataset.y_test ds)))
      \<and> make_fitness ''nmse'' = Inr nmse"
  by (simp add: init_ok make_fitness_def)

lemma finish_eval_const_opt [simp]:
  "finish_eval (ev\<lparr>const_opt := c\<rparr>) t X f = finish_eval ev t X f"
  by (simp add: finish_eval_def)

lemma early_stop_const_opt [simp]:
  "early_stop_reached (ev\<lparr>const_opt := c\<rparr>) = early_stop_reached ev"
  by (simp add: early_stop_reached_def split: sum.splits)

lemma early_stop_True:
  assumes "early_stopping ev" "hof ev \<noteq> []"
    and "finish_eval ev (nodes (hof ev ! 0)) (X_test ev) (test_fitness ev) = Inr [loss]"
    and "np_less loss (threshold ev)"
  shows "early_stop_reached ev = Inr True"
  using assms by (simp add: early_stop_reached_def)

lemma call_early_stop:
  "toolbox ev \<noteq> None \<Longrightarrow> optimize ev \<Longrightarrow> early_stop_reached ev = Inr True \<Longrightarrow>
   GenericEvaluate_call ev ind = Inr ([Fin 1], ind, [])"
  by (simp add: GenericEvaluate_call_def Let_def)

text \<open>
  Claim C2. With the toolbox set and constant optimization enabled, if early stopping is
  enabled, the hall of fame is not empty and the test-set loss of its first item is below
  the threshold, then the evaluation returns the sentinel \<open>(1.0,)\<close>, leaves the individual
  as it was, and does not call the constant optimizer: the record of its calls is empty and
  the result is the same whatever the optimizer is, even when there is none.
\<close>

theorem early_stop_sentinel:
  assumes "toolbox ev \<noteq> None" "optimize ev" "early_stopping ev" "hof ev \<noteq> []"
    and "finish_eval ev (nodes (hof ev ! 0)) (X_test ev) (test_fitness ev) = Inr [loss]"
    and "np_less loss (threshold ev)"
  shows "GenericEvaluate_call ev ind = Inr ([Fin 1], ind, [])
       \<and> (\<forall>c. GenericEvaluate_call (ev\<lparr>const_opt := c\<rparr>) ind = Inr ([Fin 1], ind, []))"
proof -
  have es: "early_stop_reached ev = Inr True"
    using assms(3-6) by (rule early_stop_True)
  have "GenericEvaluate_call ev ind = Inr ([Fin 1], ind, [])"
    using assms(1,2) es by (rule call_early_stop)
  moreover have "GenericEvaluate_call (ev\<lparr>const_opt := c\<rparr>) ind = Inr ([Fin 1], ind, [])" for c
    by (rule call_early_stop) (simp_all add: assms(1,2) es)
  ultimately show ?thesis by simp
qed

lemma call_no_optimize:
  "toolbox ev \<noteq> None \<Longrightarrow> \<not> optimize ev \<Longrightarrow>
   GenericEvaluate_call ev ind =
     (case finish_eval ev (nodes ind) (X_train ev) (train_fitness ev) of
        Inl e \<Rightarrow> Inl e | Inr fit \<Rightarrow> Inr (fit, ind, []))"
  by (auto simp add: GenericEvaluate_call_def Let_def)

lemma finish_eval_es [simp]:
  "finish_eval (ev\<lparr>early_stopping := es\<rparr>) t X f = finish_eval ev t X f"
  "finish_eval (ev\<lparr>hof := h\<rparr>) t X f = finish_eval ev t X f"
  "finish_eval (ev\<lparr>threshold := th\<rparr>) t X f = finish_eval ev t X f"
  by (simp_all add: finish_eval_def)

text \<open>
  Claim C10. With constant optimization and early stopping enabled and the incumbent below
  the threshold, the evaluation returns the sentinel for every individual, also for one
  without a constant slot. With constant optimization disabled (and the toolbox set) the
  evaluation is \<open>_finish_eval\<close> on the training data, whatever the early-stopping flag, the
  hall of fame and the threshold are.
\<close>

theorem early_stop_scope:
  "(toolbox ev \<noteq> None \<and> optimize ev \<and> early_stopping ev \<and> hof ev \<noteq> []
      \<and> finish_eval ev (nodes (hof ev ! 0)) (X_test ev) (test_fitness ev) = Inr [loss]
      \<and> np_less loss (threshold ev)
    \<longrightarrow> (\<forall>ind. GenericEvaluate_call ev ind = Inr ([Fin 1], ind, []))
        \<and> (\<forall>ind. filter (\<lambda>i. name (nodes ind ! i) = ''const'') [0..<length (nodes ind)] = []
                \<longrightarrow> GenericEvaluate_call ev ind = Inr ([Fin 1], ind, [])))
 \<and> (toolbox ev \<noteq> None \<and> \<not> optimize ev
    \<longrightarrow> (\<forall>ind es h th.
           GenericEvaluate_call (ev\<lparr>early_stopping := es, hof := h, threshold := th\<rparr>) ind =
             (case finish_eval ev (nodes ind) (X_train ev) (train_fitness ev) of
                Inl e \<Rightarrow> Inl e | Inr fit \<Rightarrow> Inr (fit, ind, []))))"
proof (intro conjI impI allI)
  fix ind
  assume a: "toolbox ev \<noteq> None \<and> optimize ev \<and> early_stopping ev \<and> hof ev \<noteq> []
      \<and> finish_eval ev (nodes (hof ev ! 0)) (X_test ev) (test_fitness ev) = Inr [loss]
      \<and> np_less loss (threshold ev)"
  then have "early_stop_reached ev = Inr True" by (simp add: early_stop_True)
  with a show "GenericEvaluate_call ev ind = Inr ([Fin 1], ind, [])"
    by (simp add: call_early_stop)
  then show "GenericEvaluate_call ev ind = Inr ([Fin 1], ind, [])" .
next
  fix ind es h th
  assume a: "toolbox ev \<noteq> None \<and> \<not> optimize ev"
  show "GenericEvaluate_call (ev\<lparr>early_stopping := es, hof := h, threshold := th\<rparr>) ind =
             (case finish_eval ev (nodes ind) (X_train ev) (train_fitness ev) of
                Inl e \<Rightarrow> Inl e | Inr fit \<Rightarrow> Inr (fit, ind, []))"
    using a by (simp add: call_no_optimize)
qed

lemma const_idxs_props:
  assumes "idxs = filter (\<lambda>i. name (t ! i) = ''const'') [0..<length t]"
  shows "distinct idxs" and "\<forall>i\<in>set idxs. i < length t \<and> name (t ! i) = ''const''"
    and "\<forall>i<length t. name (t ! i) = ''const'' \<longrightarrow> i \<in> set idxs"
  using assms by simp_all

lemma finish_eval_len: "finish_eval ev t X f = Inr fit \<Longrightarrow> length fit = 1"
  by (auto simp: finish_eval_def split: option.splits sum.splits)

lemma call_tuple_len:
  "GenericEvaluate_call ev ind = Inr (fit, ind', calls) \<Longrightarrow> length fit = 1"
  by (auto simp: GenericEvaluate_call_def Let_def dest: finish_eval_len
      split: if_splits sum.splits bool.splits option.splits prod.splits)

lemma call_optimize_eq:
  assumes "toolbox ev \<noteq> None"
    and "optimize ev" and "early_stop_reached ev = Inr False"
    and "idxs = filter (\<lambda>i. name (nodes ind ! i) = ''const'') [0..<length (nodes ind)]"
    and "idxs \<noteq> []"
  shows "GenericEvaluate_call ev ind =
    (case const_opt ev of
       None \<Rightarrow> Inl TypeError
     | Some opt \<Rightarrow>
        (case run_optimizer (opt (np_ones (length idxs))) (obj ev idxs) (nodes ind) of
           (Inl e, tree1) \<Rightarrow> Inl e
         | (Inr optimized_consts, tree1) \<Rightarrow>
             (case set_consts tree1 (zip idxs optimized_consts) of
                (Some e, tree2) \<Rightarrow> Inl e
              | (None, tree2) \<Rightarrow>
                  (case finish_eval ev tree2 (X_train ev) (train_fitness ev) of
                     Inl e \<Rightarrow> Inl e
                   | Inr fit \<Rightarrow> Inr (fit, ind\<lparr>nodes := tree2\<rparr>, [np_ones (length idxs)])))))"
proof -
  have len: "0 < length idxs" using assms(5) by simp
  show ?thesis
    unfolding GenericEvaluate_call_def Let_def assms(4) [symmetric]
    using assms(1,2,3) len by (simp only: if_False if_True simp_thms sum.case bool.case)
qed

lemma call_optimize_cases:
  assumes "GenericEvaluate_call ev ind = Inr (fit, ind', calls)"
    and "optimize ev" and "early_stop_reached ev = Inr False"
    and "idxs = filter (\<lambda>i. name (nodes ind ! i) = ''const'') [0..<length (nodes ind)]"
    and "idxs \<noteq> []"
  shows "\<exists>opt r t1 t2.
    const_opt ev = Some opt
    \<and> run_optimizer (opt (np_ones (length idxs))) (obj ev idxs) (nodes ind) = (Inr r, t1)
    \<and> set_consts t1 (zip idxs r) = (None, t2)
    \<and> finish_eval ev t2 (X_train ev) (train_fitness ev) = Inr fit
    \<and> ind' = ind\<lparr>nodes := t2\<rparr>
    \<and> calls = [np_ones (length idxs)]"
proof -
  have tb: "toolbox ev \<noteq> None"
  proof
    assume "toolbox ev = None"
    then have "GenericEvaluate_call ev ind = Inl (AssertionError ''Must set toolbox first.'')"
      by (simp add: GenericEvaluate_call_def)
    with assms(1) show False by simp
  qed
  note eq = call_optimize_eq [OF tb assms(2-5)]
  obtain opt where opt: "const_opt ev = Some opt"
    using assms(1) unfolding eq by (cases "const_opt ev") simp_all
  obtain rr t1 where run: "run_optimizer (opt (np_ones (length idxs))) (obj ev idxs) (nodes ind) = (rr, t1)"
    by (cases "run_optimizer (opt (np_ones (length idxs))) (obj ev idxs) (nodes ind)")
  obtain r where r: "rr = Inr r"
    using assms(1) unfolding eq by (cases rr) (simp_all add: opt run)
  obtain eo t2 where sc: "set_consts t1 (zip idxs r) = (eo, t2)"
    by (cases "set_consts t1 (zip idxs r)")
  have eo: "eo = None"
    using assms(1) unfolding eq by (cases eo) (simp_all add: opt run r sc)
  obtain f where fe: "finish_eval ev t2 (X_train ev) (train_fitness ev) = Inr f"
    using assms(1) unfolding eq
    by (cases "finish_eval ev t2 (X_train ev) (train_fitness ev)") (simp_all add: opt run r sc eo)
  have res: "fit = f \<and> ind' = ind\<lparr>nodes := t2\<rparr> \<and> calls = [np_ones (length idxs)]"
    using assms(1) unfolding eq by (simp add: opt run r sc eo fe)
  show ?thesis
    apply (rule exI [of _ opt], rule exI [of _ r], rule exI [of _ t1], rule exI [of _ t2])
    using opt run r sc eo fe res by simp
qed

text \<open>
  Claim C3. When the evaluation of an individual with at least one constant slot returns,
  with constant optimization enabled and no early stop: the constant optimizer was called
  once, with the all-ones vector of as many entries as there are slots; the \<open>k\<close>-th value it
  returned is in the \<open>k\<close>-th slot (a returned vector is zipped with the slots); the tree has
  its length, the nodes outside the slots are the same, and the nodes named "const" are
  those of the slots, as before.
\<close>

theorem const_slots_written:
  assumes "GenericEvaluate_call ev ind = Inr (fit, ind', calls)"
    and "optimize ev" and "early_stop_reached ev = Inr False"
    and "idxs = filter (\<lambda>i. name (nodes ind ! i) = ''const'') [0..<length (nodes ind)]"
    and "idxs \<noteq> []"
  shows "calls = [np_ones (length idxs)]
    \<and> (\<exists>opt r t1. const_opt ev = Some opt
          \<and> run_optimizer (opt (np_ones (length idxs))) (obj ev idxs) (nodes ind) = (Inr r, t1)
          \<and> (\<forall>k. k < length idxs \<and> k < length r
                 \<longrightarrow> nodes ind' ! (idxs ! k) = const_terminal (r ! k)))
    \<and> length (nodes ind') = length (nodes ind)
    \<and> (\<forall>i. i \<notin> set idxs \<longrightarrow> nodes ind' ! i = nodes ind ! i)
    \<and> (\<forall>i<length (nodes ind'). (name (nodes ind' ! i) = ''const'') = (i \<in> set idxs))
    \<and> fitness_values ind' = fitness_values ind"
proof -
  obtain opt r t1 t2 where
    opt: "const_opt ev = Some opt"
    and run: "run_optimizer (opt (np_ones (length idxs))) (obj ev idxs) (nodes ind) = (Inr r, t1)"
    and sc: "set_consts t1 (zip idxs r) = (None, t2)"
    and i': "ind' = ind\<lparr>nodes := t2\<rparr>"
    and c: "calls = [np_ones (length idxs)]"
    using call_optimize_cases [OF assms] by auto
  let ?t = "nodes ind"
  have dist: "distinct idxs"
    and inv: "\<forall>i\<in>set idxs. i < length ?t \<and> name (?t ! i) = ''const''"
    and all: "\<forall>i<length ?t. name (?t ! i) = ''const'' \<longrightarrow> i \<in> set idxs"
    using const_idxs_props [OF assms(4)] by blast+
  have s1: "slots_only idxs ?t t1"
    using run_optimizer_slots_only [OF inv run] .
  have inv1: "\<forall>i\<in>set idxs. i < length t1 \<and> name (t1 ! i) = ''const''"
    using slots_only_inv [OF s1 inv] .
  have s2: "slots_only idxs t1 t2"
    using set_consts_slots_only [OF zip_fst_subset _ sc] inv1 by blast
  have s: "slots_only idxs ?t t2"
    using s1 s2 by (rule slots_only_trans)
  have n2: "nodes ind' = t2" by (simp add: i')
  have len: "length t2 = length ?t" using s by (simp add: slots_only_def)
  have other: "\<forall>i. i \<notin> set idxs \<longrightarrow> t2 ! i = ?t ! i" using s by (simp add: slots_only_def)
  have names: "\<forall>i<length t2. (name (t2 ! i) = ''const'') = (i \<in> set idxs)"
  proof (intro allI impI)
    fix i assume "i < length t2"
    then have il: "i < length ?t" using len by simp
    have "name (t2 ! i) = name (?t ! i)" using slots_only_name [OF s il] .
    then show "(name (t2 ! i) = ''const'') = (i \<in> set idxs)"
      using inv all il by auto
  qed
  have dz: "distinct (map fst (zip idxs r))"
    using dist by (simp add: map_fst_zip_take)
  have written: "\<forall>k. k < length idxs \<and> k < length r \<longrightarrow> t2 ! (idxs ! k) = const_terminal (r ! k)"
  proof (intro allI impI)
    fix k assume k: "k < length idxs \<and> k < length r"
    then have "k < length (zip idxs r)" by simp
    then have "t2 ! fst (zip idxs r ! k) = const_terminal (snd (zip idxs r ! k))"
      using set_consts_written [OF dz sc] by blast
    then show "t2 ! (idxs ! k) = const_terminal (r ! k)" using k by simp
  qed
  have ex: "\<exists>opt r t1. const_opt ev = Some opt
          \<and> run_optimizer (opt (np_ones (length idxs))) (obj ev idxs) (nodes ind) = (Inr r, t1)
          \<and> (\<forall>k. k < length idxs \<and> k < length r
                 \<longrightarrow> nodes ind' ! (idxs ! k) = const_terminal (r ! k))"
    using opt run written n2 by blast
  show ?thesis
    using c ex len other names n2 by (simp add: i')
qed

section \<open>Properties of the evaluation step\<close>

lemma assign_fitnesses_other:
  "assign_fitnesses ev as h = Inr h' \<Longrightarrow> a \<notin> set as \<Longrightarrow> h' a = h a"
proof (induction as arbitrary: h)
  case Nil
  then show ?case by simp
next
  case (Cons b bs)
  from Cons.prems(1) obtain fit ind' where
    e: "ev (h b) = Inr (fit, ind')"
    and rest: "assign_fitnesses ev bs (h(b := ind'\<lparr>fitness_values := fit\<rparr>)) = Inr h'"
    by (cases "ev (h b)") auto
  have "a \<noteq> b" and "a \<notin> set bs" using Cons.prems(2) by auto
  then show ?case using Cons.IH [OF rest] by simp
qed

lemma assign_fitnesses_assigned:
  "assign_fitnesses ev as h = Inr h' \<Longrightarrow> a \<in> set as \<Longrightarrow>
   \<exists>i fit i'. ev i = Inr (fit, i') \<and> h' a = i'\<lparr>fitness_values := fit\<rparr>"
proof (induction as arbitrary: h)
  case Nil
  then show ?case by simp
next
  case (Cons b bs)
  from Cons.prems(1) obtain fit ind' where
    e: "ev (h b) = Inr (fit, ind')"
    and rest: "assign_fitnesses ev bs (h(b := ind'\<lparr>fitness_values := fit\<rparr>)) = Inr h'"
    by (cases "ev (h b)") auto
  show ?case
  proof (cases "a \<in> set bs")
    case True
    then show ?thesis using Cons.IH [OF rest] by simp
  next
    case False
    then have "a = b" using Cons.prems(2) by simp
    then have "h' a = ind'\<lparr>fitness_values := fit\<rparr>"
      using assign_fitnesses_other [OF rest False] by simp
    then show ?thesis using e by blast
  qed
qed

lemma assign_fitnesses_times:
  "assign_fitnesses ev as h = Inr h' \<Longrightarrow>
   evaluated_times ev (count_list as a) (h a) = Inr (h' a)"
proof (induction as arbitrary: h)
  case Nil
  then show ?case by simp
next
  case (Cons b bs)
  from Cons.prems obtain fit ind' where
    e: "ev (h b) = Inr (fit, ind')"
    and rest: "assign_fitnesses ev bs (h(b := ind'\<lparr>fitness_values := fit\<rparr>)) = Inr h'"
    by (cases "ev (h b)") auto
  note ih = Cons.IH [OF rest]
  show ?case
  proof (cases "a = b")
    case True
    then show ?thesis using ih e by simp
  next
    case False
    then show ?thesis using ih by simp
  qed
qed

lemma evaluated_times_once:
  "evaluated_times ev (Suc 0) i = Inr i' \<longleftrightarrow>
   (\<exists>fit i0. ev i = Inr (fit, i0) \<and> i' = i0\<lparr>fitness_values := fit\<rparr>)"
  by (auto split: sum.splits)

lemma GenericAlgorithm_eval_Inr:
  assumes "GenericAlgorithm_eval lib tbg pop hf w = Inr ((pop', hf', ivs), w')"
  shows "\<exists>tb h'. tbg = Some tb
    \<and> assign_fitnesses (evaluate tb hf) (filter (\<lambda>a. \<not> valid (heap w a)) pop) (heap w) = Inr h'
    \<and> pop' = pop \<and> ivs = filter (\<lambda>a. \<not> valid (heap w a)) pop
    \<and> hf' = map_option (\<lambda>items. HallOfFame_update lib items (map h' pop)) hf
    \<and> w' = w\<lparr>heap := h'\<rparr>"
proof -
  obtain tb where tb: "tbg = Some tb"
    using assms by (cases tbg) (simp_all add: GenericAlgorithm_eval_def)
  obtain h' where h': "assign_fitnesses (evaluate tb hf) (filter (\<lambda>a. \<not> valid (heap w a)) pop) (heap w) = Inr h'"
    using assms tb
    by (cases "assign_fitnesses (evaluate tb hf) (filter (\<lambda>a. \<not> valid (heap w a)) pop) (heap w)")
       (simp_all add: GenericAlgorithm_eval_def)
  have "pop' = pop \<and> ivs = filter (\<lambda>a. \<not> valid (heap w a)) pop
    \<and> hf' = map_option (\<lambda>items. HallOfFame_update lib items (map h' pop)) hf
    \<and> w' = w\<lparr>heap := h'\<rparr>"
    using assms tb h' by (cases hf) (auto simp add: GenericAlgorithm_eval_def)
  then show ?thesis using tb h' by simp
qed

text \<open>
  Claim C1. When \<open>_eval\<close> returns: the population is returned as it was given; the third
  value lists the individuals that were invalid on entry, so its length is their number;
  an object outside that list is unchanged; an object in the list is, after the call, what
  the registered evaluator made of the object read on entry, with the fitness that this
  evaluation returned (an object listed \<open>n\<close> times goes through \<open>n\<close> such rounds, one that
  is not listed through none); with an evaluator that returns 1-tuples every individual of
  the population is valid; the random state and the registered classes are untouched; the
  hall of fame, when given, is the update of the given one with the population after all
  assignments, and holds valid individuals only when it did so before and its update keeps
  items of its two arguments.
\<close>

theorem eval_invalid_only:
  assumes ret: "GenericAlgorithm_eval lib tbg pop hf w = Inr ((pop', hf', invalid_ind), w')"
    and one: "\<forall>tb h i fit i'. tbg = Some tb \<and> evaluate tb h i = Inr (fit, i') \<longrightarrow> length fit = 1"
  shows "pop' = pop
    \<and> invalid_ind = filter (\<lambda>a. \<not> valid (heap w a)) pop
    \<and> length invalid_ind = length (filter (\<lambda>a. \<not> valid (heap w a)) pop)
    \<and> (\<forall>a. a \<notin> set invalid_ind \<longrightarrow> heap w' a = heap w a)
    \<and> (\<exists>tb. tbg = Some tb
          \<and> (\<forall>a. evaluated_times (evaluate tb hf) (count_list invalid_ind a) (heap w a)
                  = Inr (heap w' a))
          \<and> (\<forall>a. count_list invalid_ind a = 1 \<longrightarrow>
                 (\<exists>fit i'. evaluate tb hf (heap w a) = Inr (fit, i')
                    \<and> heap w' a = i'\<lparr>fitness_values := fit\<rparr>)))
    \<and> (\<forall>a \<in> set pop. valid (heap w' a))
    \<and> rng w' = rng w \<and> creator w' = creator w \<and> gp_const w' = gp_const w
    \<and> hf' = map_option (\<lambda>items. HallOfFame_update lib items (map (heap w') pop)) hf
    \<and> ((\<forall>items p. set (HallOfFame_update lib items p) \<subseteq> set items \<union> set p)
        \<and> (\<forall>items. hf = Some items \<longrightarrow> (\<forall>i \<in> set items. valid i))
        \<longrightarrow> (\<forall>items'. hf' = Some items' \<longrightarrow> (\<forall>i \<in> set items'. valid i)))"
proof -
  let ?inv = "filter (\<lambda>a. \<not> valid (heap w a)) pop"
  obtain tb h' where tb: "tbg = Some tb"
    and h': "assign_fitnesses (evaluate tb hf) ?inv (heap w) = Inr h'"
    and p: "pop' = pop" and i: "invalid_ind = ?inv"
    and hf': "hf' = map_option (\<lambda>items. HallOfFame_update lib items (map h' pop)) hf"
    and w': "w' = w\<lparr>heap := h'\<rparr>"
    using GenericAlgorithm_eval_Inr [OF ret] by blast
  have hw: "heap w' = h'" and r: "rng w' = rng w"
    and c: "creator w' = creator w" and g: "gp_const w' = gp_const w"
    by (simp_all add: w')
  have other: "\<forall>a. a \<notin> set invalid_ind \<longrightarrow> heap w' a = heap w a"
    using assign_fitnesses_other [OF h'] by (simp add: hw i)
  have times: "\<forall>a. evaluated_times (evaluate tb hf) (count_list invalid_ind a) (heap w a)
                  = Inr (heap w' a)"
    using assign_fitnesses_times [OF h'] by (simp add: hw i)
  have once: "\<forall>a. count_list invalid_ind a = 1 \<longrightarrow>
                 (\<exists>fit i'. evaluate tb hf (heap w a) = Inr (fit, i')
                    \<and> heap w' a = i'\<lparr>fitness_values := fit\<rparr>)"
  proof (intro allI impI)
    fix a assume "count_list invalid_ind a = 1"
    then have "evaluated_times (evaluate tb hf) (Suc 0) (heap w a) = Inr (heap w' a)"
      using times by (metis One_nat_def)
    then show "\<exists>fit i'. evaluate tb hf (heap w a) = Inr (fit, i')
                    \<and> heap w' a = i'\<lparr>fitness_values := fit\<rparr>"
      by (simp only: evaluated_times_once)
  qed
  have tied: "\<exists>tb. tbg = Some tb
          \<and> (\<forall>a. evaluated_times (evaluate tb hf) (count_list invalid_ind a) (heap w a)
                  = Inr (heap w' a))
          \<and> (\<forall>a. count_list invalid_ind a = 1 \<longrightarrow>
                 (\<exists>fit i'. evaluate tb hf (heap w a) = Inr (fit, i')
                    \<and> heap w' a = i'\<lparr>fitness_values := fit\<rparr>))"
    using tb times once by simp
  have allvalid: "\<forall>a \<in> set pop. valid (heap w' a)"
  proof
    fix a assume a: "a \<in> set pop"
    show "valid (heap w' a)"
    proof (cases "a \<in> set invalid_ind")
      case True
      then have "a \<in> set ?inv" by (simp add: i)
      from assign_fitnesses_assigned [OF h' this]
      obtain i0 fit i' where "evaluate tb hf i0 = Inr (fit, i')"
        and eq: "heap w' a = i'\<lparr>fitness_values := fit\<rparr>"
        by (auto simp: hw)
      then have "length fit = 1" using one tb by blast
      then show ?thesis by (auto simp: eq valid_def)
    next
      case False
      then have "heap w' a = heap w a" using other by simp
      moreover have "valid (heap w a)" using False a by (simp add: i)
      ultimately show ?thesis by simp
    qed
  qed
  have hofvalid: "\<forall>items'. hf' = Some items' \<longrightarrow> (\<forall>i \<in> set items'. valid i)"
    if sub: "\<forall>items p. set (HallOfFame_update lib items p) \<subseteq> set items \<union> set p"
    and old: "\<forall>items. hf = Some items \<longrightarrow> (\<forall>i \<in> set items. valid i)"
  proof (intro allI impI ballI)
    fix items' x assume s: "hf' = Some items'" and x: "x \<in> set items'"
    from s hf' obtain items where it: "hf = Some items"
      and up: "items' = HallOfFame_update lib items (map h' pop)"
      by (cases hf) auto
    have "x \<in> set items \<union> set (map h' pop)" using sub x up by blast
    then show "valid x"
      using old it allvalid hw by auto
  qed
  have hfeq: "hf' = map_option (\<lambda>items. HallOfFame_update lib items (map (heap w') pop)) hf"
    using hf' by (simp add: hw)
  show ?thesis
    using p i other tied allvalid r c g hfeq hofvalid by blast
qed

section \<open>Properties of the generational loop\<close>

lemma clone_all_length:
  "clone_all tb p w = Inr (p', w') \<Longrightarrow> length p' = length p"
proof (induction p arbitrary: w p' w')
  case Nil
  then show ?case by simp
next
  case (Cons a rest)
  from Cons.prems obtain a' w1 where c: "clone tb a w = Inr (a', w1)"
    by (cases "clone tb a w") auto
  from Cons.prems c obtain rest' w2 where r: "clone_all tb rest w1 = Inr (rest', w2)"
    by (cases "clone_all tb rest w1") auto
  have "p' = a' # rest'" using Cons.prems c r by simp
  then show ?case using Cons.IH [OF r] by simp
qed

lemma crossover_loop_length:
  "crossover_loop lib tb cxpb is off w = Inr (off', w') \<Longrightarrow> length off' = length off"
proof (induction "is" arbitrary: off w)
  case Nil
  then show ?case by simp
next
  case (Cons i rest)
  obtain u r1 where u: "random_random lib (rng w) = (u, r1)"
    by (cases "random_random lib (rng w)")
  show ?case
  proof (cases "u < cxpb")
    case True
    from Cons.prems u True obtain c1 c2 w1 where
      m: "mate tb (off ! (i - 1)) (off ! i) (w\<lparr>rng := r1\<rparr>) = Inr ((c1, c2), w1)"
      by (cases "mate tb (off ! (i - 1)) (off ! i) (w\<lparr>rng := r1\<rparr>)") auto
    have "crossover_loop lib tb cxpb rest (off[i - 1 := c1, i := c2])
            (del_fitness_values c2 (del_fitness_values c1 w1)) = Inr (off', w')"
      using Cons.prems u True m by simp
    from Cons.IH [OF this] show ?thesis by simp
  next
    case False
    have "crossover_loop lib tb cxpb rest off (w\<lparr>rng := r1\<rparr>) = Inr (off', w')"
      using Cons.prems u False by simp
    from Cons.IH [OF this] show ?thesis .
  qed
qed

lemma mutation_loop_length:
  "mutation_loop lib tb mutpb is off w = Inr (off', w') \<Longrightarrow> length off' = length off"
proof (induction "is" arbitrary: off w)
  case Nil
  then show ?case by simp
next
  case (Cons i rest)
  obtain u r1 where u: "random_random lib (rng w) = (u, r1)"
    by (cases "random_random lib (rng w)")
  show ?case
  proof (cases "u < mutpb")
    case True
    from Cons.prems u True obtain m w1 where
      m: "mutate tb (off ! i) (w\<lparr>rng := r1\<rparr>) = Inr (m, w1)"
      by (cases "mutate tb (off ! i) (w\<lparr>rng := r1\<rparr>)") auto
    have "mutation_loop lib tb mutpb rest (off[i := m]) (del_fitness_values m w1) = Inr (off', w')"
      using Cons.prems u True m by simp
    from Cons.IH [OF this] show ?thesis by simp
  next
    case False
    have "mutation_loop lib tb mutpb rest off (w\<lparr>rng := r1\<rparr>) = Inr (off', w')"
      using Cons.prems u False by simp
    from Cons.IH [OF this] show ?thesis .
  qed
qed

lemma var_and_length:
  assumes "GenericAlgorithm_var_and lib p tb cxpb mutpb w = Inr (p', w')"
  shows "length p' = length p"
proof -
  from assms obtain off w1 where c: "clone_all tb p w = Inr (off, w1)"
    by (cases "clone_all tb p w") (auto simp: GenericAlgorithm_var_and_def)
  from assms c obtain off2 w2 where
    x: "crossover_loop lib tb cxpb (filter odd [1..<length off]) off w1 = Inr (off2, w2)"
    by (cases "crossover_loop lib tb cxpb (filter odd [1..<length off]) off w1")
       (auto simp: GenericAlgorithm_var_and_def)
  have m: "mutation_loop lib tb mutpb [0..<length off2] off2 w2 = Inr (p', w')"
    using assms c x by (simp add: GenericAlgorithm_var_and_def)
  show ?thesis
    using clone_all_length [OF c] crossover_loop_length [OF x] mutation_loop_length [OF m]
    by simp
qed

lemma generation_Inr:
  assumes "generation lib tbg tb cxpb mutpb stats g (p, lb, hf, w) = Inr (p1, lb1, hf1, w1)"
  shows "\<exists>sel wa wb ivs rec.
      select tb p (length p) w = Inr (sel, wa)
    \<and> GenericAlgorithm_var_and lib sel tb cxpb mutpb wa = Inr (p1, wb)
    \<and> GenericAlgorithm_eval lib tbg p1 hf wb = Inr ((p1, hf1, ivs), w1)
    \<and> ivs = filter (\<lambda>a. \<not> valid (heap wb a)) p1
    \<and> compile_stats stats (map (heap w1) p1) = Inr rec
    \<and> lb1 = lb @ [\<lparr>gen = g, nevals = length ivs, stats_record = rec\<rparr>]"
proof -
  from assms obtain sel wa where s: "select tb p (length p) w = Inr (sel, wa)"
    by (cases "select tb p (length p) w") (auto simp: generation_def)
  from assms s obtain var wb where v: "GenericAlgorithm_var_and lib sel tb cxpb mutpb wa = Inr (var, wb)"
    by (cases "GenericAlgorithm_var_and lib sel tb cxpb mutpb wa") (auto simp: generation_def)
  from assms s v obtain off hf' ivs w3 where
    e: "GenericAlgorithm_eval lib tbg var hf wb = Inr ((off, hf', ivs), w3)"
    by (cases "GenericAlgorithm_eval lib tbg var hf wb") (auto simp: generation_def)
  from assms s v e obtain rec where c: "compile_stats stats (map (heap w3) off) = Inr rec"
    by (cases "compile_stats stats (map (heap w3) off)") (auto simp: generation_def)
  have res: "p1 = off \<and> hf1 = hf' \<and> w1 = w3
    \<and> lb1 = lb @ [\<lparr>gen = g, nevals = length ivs, stats_record = rec\<rparr>]"
    using assms s v e c by (simp add: generation_def)
  have ev: "off = var \<and> ivs = filter (\<lambda>a. \<not> valid (heap wb a)) var"
    using GenericAlgorithm_eval_Inr [OF e] by blast
  show ?thesis
    using s v e c res ev by auto
qed

lemma generation_facts:
  assumes "generation lib tbg tb cxpb mutpb stats g (p, lb, hf, w) = Inr (p1, lb1, hf1, w1)"
    and sel: "\<forall>q k w0 q' w0'. select tb q k w0 = Inr (q', w0') \<longrightarrow> length q' = k"
  shows "length p1 = length p" and "map gen lb1 = map gen lb @ [g]"
    and "length lb1 = Suc (length lb)" and "nevals (last lb1) \<le> length p"
    and "take (length lb) lb1 = lb"
proof -
  obtain sl wa wb ivs rec where
    s: "select tb p (length p) w = Inr (sl, wa)"
    and v: "GenericAlgorithm_var_and lib sl tb cxpb mutpb wa = Inr (p1, wb)"
    and i: "ivs = filter (\<lambda>a. \<not> valid (heap wb a)) p1"
    and l: "lb1 = lb @ [\<lparr>gen = g, nevals = length ivs, stats_record = rec\<rparr>]"
    using generation_Inr [OF assms(1)] by blast
  have "length sl = length p" using sel s by blast
  then show len: "length p1 = length p" using var_and_length [OF v] by simp
  show "map gen lb1 = map gen lb @ [g]" by (simp add: l)
  show "length lb1 = Suc (length lb)" by (simp add: l)
  have "length ivs \<le> length p1" by (simp add: i)
  then show "nevals (last lb1) \<le> length p" using len by (simp add: l)
  show "take (length lb) lb1 = lb" by (simp add: l)
qed

lemma generations_loop_facts:
  assumes "generations_loop lib tbg tb cxpb mutpb stats gs (p, lb, hf, w) = Inr (p1, lb1, hf1, w1)"
    and sel: "\<forall>q k w0 q' w0'. select tb q k w0 = Inr (q', w0') \<longrightarrow> length q' = k"
  shows "length p1 = length p \<and> map gen lb1 = map gen lb @ gs
       \<and> take (length lb) lb1 = lb
       \<and> (\<forall>r \<in> set (drop (length lb) lb1). nevals r \<le> length p)"
  using assms(1)
proof (induction gs arbitrary: p lb hf w)
  case Nil
  then show ?case by simp
next
  case (Cons g gs)
  from Cons.prems obtain st where st: "generation lib tbg tb cxpb mutpb stats g (p, lb, hf, w) = Inr st"
    by (cases "generation lib tbg tb cxpb mutpb stats g (p, lb, hf, w)") auto
  obtain p2 lb2 hf2 w2 where st2: "st = (p2, lb2, hf2, w2)" by (cases st) auto
  have g: "generation lib tbg tb cxpb mutpb stats g (p, lb, hf, w) = Inr (p2, lb2, hf2, w2)"
    using st st2 by simp
  have rest: "generations_loop lib tbg tb cxpb mutpb stats gs (p2, lb2, hf2, w2) = Inr (p1, lb1, hf1, w1)"
    using Cons.prems st st2 by simp
  note f = generation_facts [OF g sel]
  from Cons.IH [OF rest] have ih: "length p1 = length p2" "map gen lb1 = map gen lb2 @ gs"
    "take (length lb2) lb1 = lb2" "\<forall>r \<in> set (drop (length lb2) lb1). nevals r \<le> length p2"
    by simp_all
  have l2: "lb2 = lb @ [last lb2]"
    using f(3,5) by (metis append_butlast_last_id butlast_snoc length_0_conv nat.simps(3) take_all_iff append_eq_conv_conj length_butlast diff_Suc_1 butlast_take order_refl)
  have t: "take (length lb) lb1 = lb"
  proof -
    have "take (length lb) lb1 = take (length lb) (take (length lb2) lb1)"
      using f(3) by (simp add: min_def)
    also have "\<dots> = take (length lb) lb2" using ih(3) by simp
    also have "\<dots> = lb" using f(5) .
    finally show ?thesis .
  qed
  have d: "drop (length lb) lb1 = last lb2 # drop (length lb2) lb1"
  proof -
    have "lb1 = lb2 @ drop (length lb2) lb1"
      using ih(3) by (metis append_take_drop_id)
    then have "lb1 = lb @ (last lb2 # drop (length lb2) lb1)"
      using l2 by (metis append.assoc append_Cons append_Nil)
    then show ?thesis
      by (metis append_eq_conv_conj)
  qed
  have n: "\<forall>r \<in> set (drop (length lb) lb1). nevals r \<le> length p"
    using d f(1,4) ih(4) by auto
  show ?case
    using ih(1,2) f(1,2) t n by simp
qed

lemma header_Inr:
  assumes "GenericAlgorithm_header lib tbg p tb stats hf verbose w = Inr ((lb, hf'), w')"
  shows "\<exists>ivs rec. GenericAlgorithm_eval lib tbg p hf w = Inr ((p, hf', ivs), w')
     \<and> ivs = filter (\<lambda>a. \<not> valid (heap w a)) p
     \<and> compile_stats stats (map (heap w') p) = Inr rec
     \<and> lb = [\<lparr>gen = 0, nevals = length ivs, stats_record = rec\<rparr>]"
proof -
  from assms obtain p0 h0 ivs w0 where
    e: "GenericAlgorithm_eval lib tbg p hf w = Inr ((p0, h0, ivs), w0)"
    by (cases "GenericAlgorithm_eval lib tbg p hf w") (auto simp: GenericAlgorithm_header_def)
  from assms e obtain rec where c: "compile_stats stats (map (heap w0) p0) = Inr rec"
    by (cases "compile_stats stats (map (heap w0) p0)") (auto simp: GenericAlgorithm_header_def)
  have res: "lb = [\<lparr>gen = 0, nevals = length ivs, stats_record = rec\<rparr>] \<and> hf' = h0 \<and> w' = w0"
    using assms e c by (simp add: GenericAlgorithm_header_def)
  have "p0 = p \<and> ivs = filter (\<lambda>a. \<not> valid (heap w a)) p"
    using GenericAlgorithm_eval_Inr [OF e] by blast
  then show ?thesis using e c res by auto
qed

lemma generations_loop_states:
  "generations_loop lib tbg tb cxpb mutpb stats gs st = Inr st' \<Longrightarrow>
   \<exists>sts. length sts = Suc (length gs) \<and> sts ! 0 = st \<and> sts ! length gs = st'
     \<and> (\<forall>k<length gs. generation lib tbg tb cxpb mutpb stats (gs ! k) (sts ! k)
                          = Inr (sts ! Suc k))
     \<and> (\<forall>k\<le>length gs. generations_loop lib tbg tb cxpb mutpb stats (drop k gs) (sts ! k)
                          = Inr st')"
proof (induction gs arbitrary: st)
  case Nil
  then have "length [st] = Suc (length ([] :: int list)) \<and> [st] ! 0 = st
     \<and> [st] ! length ([] :: int list) = st'
     \<and> (\<forall>k<length ([] :: int list).
           generation lib tbg tb cxpb mutpb stats (([] :: int list) ! k) ([st] ! k)
             = Inr ([st] ! Suc k))
     \<and> (\<forall>k\<le>length ([] :: int list).
           generations_loop lib tbg tb cxpb mutpb stats (drop k []) ([st] ! k) = Inr st')"
    by simp
  then show ?case by (rule exI)
next
  case (Cons g gs)
  from Cons.prems obtain st1 where
    g: "generation lib tbg tb cxpb mutpb stats g st = Inr st1"
    and rest: "generations_loop lib tbg tb cxpb mutpb stats gs st1 = Inr st'"
    by (cases "generation lib tbg tb cxpb mutpb stats g st") auto
  from Cons.IH [OF rest] obtain sts where
    len: "length sts = Suc (length gs)" and first: "sts ! 0 = st1"
    and final: "sts ! length gs = st'"
    and step: "\<forall>k<length gs. generation lib tbg tb cxpb mutpb stats (gs ! k) (sts ! k)
                          = Inr (sts ! Suc k)"
    and suffix: "\<forall>k\<le>length gs. generations_loop lib tbg tb cxpb mutpb stats (drop k gs) (sts ! k)
                          = Inr st'"
    by blast
  have s: "\<forall>k<length (g # gs).
             generation lib tbg tb cxpb mutpb stats ((g # gs) ! k) ((st # sts) ! k)
               = Inr ((st # sts) ! Suc k)"
  proof (intro allI impI)
    fix k assume k: "k < length (g # gs)"
    show "generation lib tbg tb cxpb mutpb stats ((g # gs) ! k) ((st # sts) ! k)
               = Inr ((st # sts) ! Suc k)"
    proof (cases k)
      case 0
      then show ?thesis using g first by simp
    next
      case (Suc j)
      then show ?thesis using step k by simp
    qed
  qed
  have t: "\<forall>k\<le>length (g # gs).
             generations_loop lib tbg tb cxpb mutpb stats (drop k (g # gs)) ((st # sts) ! k)
               = Inr st'"
  proof (intro allI impI)
    fix k assume k: "k \<le> length (g # gs)"
    show "generations_loop lib tbg tb cxpb mutpb stats (drop k (g # gs)) ((st # sts) ! k)
               = Inr st'"
    proof (cases k)
      case 0
      then show ?thesis using Cons.prems by simp
    next
      case (Suc j)
      then show ?thesis using suffix k by simp
    qed
  qed
  have "length (st # sts) = Suc (length (g # gs)) \<and> (st # sts) ! 0 = st
      \<and> (st # sts) ! length (g # gs) = st'"
    using len final by simp
  then show ?case using s t by blast
qed

lemma upto_nth_from_one: "k < nat ngen \<Longrightarrow> [1..ngen] ! k = int (Suc k)"
  by (simp add: nth_upto)

lemma registered_evaluate_len:
  "registered_evaluate ev h i = Inr (fit, i') \<Longrightarrow> length fit = 1"
  by (auto simp: registered_evaluate_def dest: call_tuple_len split: sum.splits prod.splits)

text \<open>
  Claim C6. When \<open>__call__\<close> returns, with a selection that returns as many individuals as
  it is asked for: the population has the size it had; the logbook has one record for
  generation 0 followed by one record for each \<open>gen\<close> of \<open>range(1, ngen + 1)\<close>, in order,
  each with its generation index; the first record counts the individuals invalid on entry,
  and no record counts more than the population. The run goes through \<open>ngen + 1\<close> states,
  the last of which is the result. The first is the given population after \<open>_eval\<close>, with
  the record of generation 0 as the logbook. State \<open>k + 1\<close> comes from state \<open>k\<close> by
  selecting as many individuals as the population has, varying them and evaluating the
  offspring: its population is the offspring, of the size of the given population, and its
  logbook is the one of state \<open>k\<close> with one more record, which holds the index \<open>k + 1\<close>,
  the number of offspring that \<open>_eval\<close> evaluated (the ones invalid after variation) and
  the statistics of the offspring.
\<close>

theorem generations_fixed:
  assumes ret: "GenericAlgorithm_call lib tbg p tb cxpb mutpb ngen stats hf verbose w
                  = Inr ((p', logbook), hf', w')"
    and sel: "\<forall>q k w0 q' w0'. select tb q k w0 = Inr (q', w0') \<longrightarrow> length q' = k"
  shows "length p' = length p
     \<and> map gen logbook = 0 # [1..ngen]
     \<and> length logbook = Suc (nat ngen)
     \<and> nevals (hd logbook) = length (filter (\<lambda>a. \<not> valid (heap w a)) p)
     \<and> (\<forall>r \<in> set logbook. nevals r \<le> length p)
     \<and> (\<exists>sts. length sts = Suc (nat ngen)
          \<and> (\<exists>hf0 w0 ivs.
                GenericAlgorithm_eval lib tbg p hf w = Inr ((p, hf0, ivs), w0)
              \<and> nevals (logbook ! 0) = length ivs
              \<and> compile_stats stats (map (heap w0) p) = Inr (stats_record (logbook ! 0))
              \<and> sts ! 0 = (p, [logbook ! 0], hf0, w0))
          \<and> sts ! nat ngen = (p', logbook, hf', w')
          \<and> (\<forall>k<nat ngen. \<exists>q h w0 selected wa offspring wb h1 ivs w1.
                sts ! k = (q, take (Suc k) logbook, h, w0)
              \<and> length q = length p
              \<and> select tb q (length q) w0 = Inr (selected, wa)
              \<and> GenericAlgorithm_var_and lib selected tb cxpb mutpb wa = Inr (offspring, wb)
              \<and> GenericAlgorithm_eval lib tbg offspring h wb = Inr ((offspring, h1, ivs), w1)
              \<and> ivs = filter (\<lambda>a. \<not> valid (heap wb a)) offspring
              \<and> gen (logbook ! Suc k) = int (Suc k)
              \<and> nevals (logbook ! Suc k) = length ivs
              \<and> compile_stats stats (map (heap w1) offspring)
                  = Inr (stats_record (logbook ! Suc k))
              \<and> sts ! Suc k = (offspring, take (Suc (Suc k)) logbook, h1, w1)))"
proof -
  from ret obtain lb0 hf0 w0 where
    hd: "GenericAlgorithm_header lib tbg p tb stats hf verbose w = Inr ((lb0, hf0), w0)"
    by (cases "GenericAlgorithm_header lib tbg p tb stats hf verbose w")
       (auto simp: GenericAlgorithm_call_def)
  from ret hd have loop:
    "generations_loop lib tbg tb cxpb mutpb stats [1..ngen] (p, lb0, hf0, w0) = Inr (p', logbook, hf', w')"
    by (cases "generations_loop lib tbg tb cxpb mutpb stats [1..ngen] (p, lb0, hf0, w0)")
       (auto simp: GenericAlgorithm_call_def)
  obtain ivs0 rec where ev0: "GenericAlgorithm_eval lib tbg p hf w = Inr ((p, hf0, ivs0), w0)"
    and ivs0: "ivs0 = filter (\<lambda>a. \<not> valid (heap w a)) p"
    and st0: "compile_stats stats (map (heap w0) p) = Inr rec"
    and lb0: "lb0 = [\<lparr>gen = 0, nevals = length ivs0, stats_record = rec\<rparr>]"
    using header_Inr [OF hd] by blast
  have f: "length p' = length p" "map gen logbook = map gen lb0 @ [1..ngen]"
    "take (length lb0) logbook = lb0"
    "\<forall>r \<in> set (drop (length lb0) logbook). nevals r \<le> length p"
    using generations_loop_facts [OF loop sel] by simp_all
  have gens: "map gen logbook = 0 # [1..ngen]" using f(2) by (simp add: lb0)
  have "length (map gen logbook) = Suc (length [1..ngen])" by (simp add: gens)
  then have len: "length logbook = Suc (nat ngen)" by simp
  have split: "logbook = lb0 @ drop (length lb0) logbook"
    using f(3) by (metis append_take_drop_id)
  then have hdl: "hd logbook = hd lb0" by (metis hd_append2 lb0 list.discI)
  have n0: "nevals (hd logbook) = length (filter (\<lambda>a. \<not> valid (heap w a)) p)"
    by (simp add: hdl lb0 ivs0)
  have "\<forall>r \<in> set lb0. nevals r \<le> length p" by (simp add: lb0 ivs0)
  then have all: "\<forall>r \<in> set logbook. nevals r \<le> length p"
    using f(4) split by (metis Un_iff set_append)
  have l0: "logbook ! 0 = \<lparr>gen = 0, nevals = length ivs0, stats_record = rec\<rparr>"
    using split lb0 by (metis append_Cons nth_Cons_0)
  have ngen_len: "length [1..ngen] = nat ngen" by simp
  obtain sts where sl: "length sts = Suc (nat ngen)"
    and s0: "sts ! 0 = (p, lb0, hf0, w0)"
    and sn: "sts ! nat ngen = (p', logbook, hf', w')"
    and step: "\<forall>k<nat ngen. generation lib tbg tb cxpb mutpb stats ([1..ngen] ! k) (sts ! k)
                          = Inr (sts ! Suc k)"
    and suffix: "\<forall>k\<le>nat ngen. generations_loop lib tbg tb cxpb mutpb stats (drop k [1..ngen])
                          (sts ! k) = Inr (p', logbook, hf', w')"
    using generations_loop_states [OF loop] unfolding ngen_len by blast
  have at: "\<exists>q h wk. sts ! k = (q, take (Suc k) logbook, h, wk) \<and> length q = length p"
    if k: "k \<le> nat ngen" for k
  proof -
    obtain q lb h wk where sk: "sts ! k = (q, lb, h, wk)"
      by (cases "sts ! k" rule: prod_cases4) blast
    have "generations_loop lib tbg tb cxpb mutpb stats (drop k [1..ngen]) (q, lb, h, wk)
            = Inr (p', logbook, hf', w')"
      using suffix [rule_format, OF k] sk by simp
    from generations_loop_facts [OF this sel]
    have a: "length p' = length q" and b: "map gen logbook = map gen lb @ drop k [1..ngen]"
      and c: "take (length lb) logbook = lb"
      by simp_all
    have "length (map gen logbook) = length (map gen lb @ drop k [1..ngen])"
      using b by simp
    then have "Suc (nat ngen) = length lb + (nat ngen - k)"
      using len by simp
    then have "length lb = Suc k" using k by simp
    then have "lb = take (Suc k) logbook" using c by simp
    then show ?thesis using sk a f(1) by simp
  qed
  have first: "\<exists>hf0 w0 ivs.
                GenericAlgorithm_eval lib tbg p hf w = Inr ((p, hf0, ivs), w0)
              \<and> nevals (logbook ! 0) = length ivs
              \<and> compile_stats stats (map (heap w0) p) = Inr (stats_record (logbook ! 0))
              \<and> sts ! 0 = (p, [logbook ! 0], hf0, w0)"
    using ev0 st0 s0 l0 lb0 by simp
  have steps: "\<exists>q h w0 selected wa offspring wb h1 ivs w1.
                sts ! k = (q, take (Suc k) logbook, h, w0)
              \<and> length q = length p
              \<and> select tb q (length q) w0 = Inr (selected, wa)
              \<and> GenericAlgorithm_var_and lib selected tb cxpb mutpb wa = Inr (offspring, wb)
              \<and> GenericAlgorithm_eval lib tbg offspring h wb = Inr ((offspring, h1, ivs), w1)
              \<and> ivs = filter (\<lambda>a. \<not> valid (heap wb a)) offspring
              \<and> gen (logbook ! Suc k) = int (Suc k)
              \<and> nevals (logbook ! Suc k) = length ivs
              \<and> compile_stats stats (map (heap w1) offspring)
                  = Inr (stats_record (logbook ! Suc k))
              \<and> sts ! Suc k = (offspring, take (Suc (Suc k)) logbook, h1, w1)"
    if k: "k < nat ngen" for k
  proof -
    obtain q h wk where sk: "sts ! k = (q, take (Suc k) logbook, h, wk)"
      and lq: "length q = length p"
      using at [of k] k by auto
    obtain q1 h1 w1 where sk1: "sts ! Suc k = (q1, take (Suc (Suc k)) logbook, h1, w1)"
      using at [of "Suc k"] k by auto
    have g: "generation lib tbg tb cxpb mutpb stats (int (Suc k)) (q, take (Suc k) logbook, h, wk)
               = Inr (q1, take (Suc (Suc k)) logbook, h1, w1)"
      using step [rule_format, OF k] sk sk1 upto_nth_from_one [OF k] by simp
    obtain sl wa wb ivs rec1 where
      s: "select tb q (length q) wk = Inr (sl, wa)"
      and v: "GenericAlgorithm_var_and lib sl tb cxpb mutpb wa = Inr (q1, wb)"
      and e: "GenericAlgorithm_eval lib tbg q1 h wb = Inr ((q1, h1, ivs), w1)"
      and i: "ivs = filter (\<lambda>a. \<not> valid (heap wb a)) q1"
      and c: "compile_stats stats (map (heap w1) q1) = Inr rec1"
      and l: "take (Suc (Suc k)) logbook
                = take (Suc k) logbook @ [\<lparr>gen = int (Suc k), nevals = length ivs, stats_record = rec1\<rparr>]"
      using generation_Inr [OF g] by blast
    have lt: "Suc k < length logbook" using k len by simp
    have "take (Suc (Suc k)) logbook = take (Suc k) logbook @ [logbook ! Suc k]"
      using lt by (simp add: take_Suc_conv_app_nth)
    then have r: "logbook ! Suc k = \<lparr>gen = int (Suc k), nevals = length ivs, stats_record = rec1\<rparr>"
      using l by simp
    show ?thesis
      using sk lq s v e i c r sk1 by simp
  qed
  have "\<exists>sts. length sts = Suc (nat ngen)
          \<and> (\<exists>hf0 w0 ivs.
                GenericAlgorithm_eval lib tbg p hf w = Inr ((p, hf0, ivs), w0)
              \<and> nevals (logbook ! 0) = length ivs
              \<and> compile_stats stats (map (heap w0) p) = Inr (stats_record (logbook ! 0))
              \<and> sts ! 0 = (p, [logbook ! 0], hf0, w0))
          \<and> sts ! nat ngen = (p', logbook, hf', w')
          \<and> (\<forall>k<nat ngen. \<exists>q h w0 selected wa offspring wb h1 ivs w1.
                sts ! k = (q, take (Suc k) logbook, h, w0)
              \<and> length q = length p
              \<and> select tb q (length q) w0 = Inr (selected, wa)
              \<and> GenericAlgorithm_var_and lib selected tb cxpb mutpb wa = Inr (offspring, wb)
              \<and> GenericAlgorithm_eval lib tbg offspring h wb = Inr ((offspring, h1, ivs), w1)
              \<and> ivs = filter (\<lambda>a. \<not> valid (heap wb a)) offspring
              \<and> gen (logbook ! Suc k) = int (Suc k)
              \<and> nevals (logbook ! Suc k) = length ivs
              \<and> compile_stats stats (map (heap w1) offspring)
                  = Inr (stats_record (logbook ! Suc k))
              \<and> sts ! Suc k = (offspring, take (Suc (Suc k)) logbook, h1, w1))"
    using sl first sn steps by blast
  then show ?thesis
    using f(1) gens len n0 all by blast
qed

text \<open>
  The run starts by seeding the random source, so its result does not depend on the state
  the source had before the call.
\<close>

lemma generic_train_seeded:
  "heap w1 = heap w2 \<and> creator w1 = creator w2 \<and> gp_const w1 = gp_const w2 \<longrightarrow>
   generic_train lib tb hf algorithm n pc pm g seed verbose w1
   = generic_train lib tb hf algorithm n pc pm g seed verbose w2"
proof
  assume "heap w1 = heap w2 \<and> creator w1 = creator w2 \<and> gp_const w1 = gp_const w2"
  then have "w1\<lparr>rng := random_seed lib seed\<rparr> = w2\<lparr>rng := random_seed lib seed\<rparr>"
    by (cases w1, cases w2) simp
  then show "generic_train lib tb hf algorithm n pc pm g seed verbose w1
   = generic_train lib tb hf algorithm n pc pm g seed verbose w2"
    by (simp add: generic_train_def)
qed

text \<open>
  A run that returns has removed the two registered classes: a later run that finds them
  missing when its algorithm returns raises \<open>AttributeError\<close> instead of returning.
\<close>

lemma generic_train_unregisters:
  assumes "generic_train lib tb hf algorithm n pc pm g seed verbose w = Inr (r, w')"
  shows "''FitnessMin'' \<notin> creator w' \<and> ''Individual'' \<notin> creator w' \<and> \<not> gp_const w'"
  using assms
  by (auto simp: generic_train_def Let_def
      split: sum.splits prod.splits if_splits option.splits list.splits)

lemma generic_train_needs_classes:
  assumes "population tb n (w\<lparr>rng := random_seed lib seed\<rparr>) = Inr (pop, w1)"
    and "algorithm pop tb pc pm g (Some mstats_compile) hf verbose w1 = Inr (res, hf', w2)"
    and "''FitnessMin'' \<notin> creator w2 \<or> ''Individual'' \<notin> creator w2"
  shows "generic_train lib tb hf algorithm n pc pm g seed verbose w = Inl AttributeError"
  using assms by (cases res) (auto simp: generic_train_def Let_def)

text \<open>
  So a second run in the same process, when nothing registers the classes again, raises
  at the deletion, after its algorithm has returned.
\<close>

lemma generic_train_again:
  assumes "generic_train lib tb hf algorithm n pc pm g seed verbose w = Inr (r, w')"
    and "population tb n2 (w'\<lparr>rng := random_seed lib seed2\<rparr>) = Inr (pop, w1)"
    and "algorithm2 pop tb pc2 pm2 g2 (Some mstats_compile) hf2 verbose2 w1 = Inr (res, hf3, w2)"
    and "creator w2 = creator w'"
  shows "generic_train lib tb hf2 algorithm2 n2 pc2 pm2 g2 seed2 verbose2 w' = Inl AttributeError"
proof -
  have "''FitnessMin'' \<notin> creator w2"
    using generic_train_unregisters [OF assms(1)] assms(4) by simp
  then show ?thesis
    using assms(2,3) by (cases res) (auto simp: generic_train_def Let_def)
qed

section \<open>The example, evaluated\<close>

lemma example_evaluator_eq:
  "example_evaluator o1 e items =
     \<lparr>toolbox = Some example_compile, const_opt = Some example_optimizer, hof = items,
      X_train = [[Fin 1, Fin 2]], X_test = [[Fin 1, Fin 2]],
      y_train = [Fin 2, Fin 4], optimize = o1, early_stopping = e, threshold = Fin (1 / 10 ^ 12),
      train_fitness = (\<lambda>y_hat. nmse [Fin 2, Fin 4] y_hat (Fin 1)),
      test_fitness = (\<lambda>y_hat. nmse [Fin 2, Fin 4] y_hat (Fin 1))\<rparr>"
proof -
  have v: "np_var [Fin 2, Fin 4] = Fin 1"
    by (simp add: np_var_def np_mean_def np_sum_def np_sub_def)
  have t: "transpose [[Fin 1], [Fin 2]] = [[Fin 1, Fin 2]]"
    by (simp add: transpose.simps)
  show ?thesis
    by (simp add: example_evaluator_def init_ok example_dataset_def set_toolbox_def v t)
qed

lemma nmse_exact: "nmse [Fin 2, Fin 4] [Fin 2, Fin 4] (Fin 1) = Inr (Fin 0)"
  by (simp add: nmse_def array_sub_def np_mean_def np_sum_def np_sub_def)

lemma compile_consts:
  "example_compile [const_terminal a, const_terminal b] = Inr (\<lambda>X. Inr [a, b])"
  by (simp add: example_compile_def const_terminal_def)

lemma finish_eval_optimized:
  "finish_eval (example_evaluator o1 e items) (nodes example_optimized) X
     (\<lambda>y_hat. nmse [Fin 2, Fin 4] y_hat (Fin 1)) = Inr [Fin 0]"
  by (simp add: finish_eval_def example_evaluator_eq compile_consts example_optimized_def
      nmse_exact)

lemma example_early_stop_off:
  "early_stop_reached (example_evaluator o1 False items) = Inr False"
  by (simp add: early_stop_reached_def example_evaluator_eq)

lemma set_consts_example:
  "set_consts [const_slot, const_slot] [(0, a), (Suc 0, b)] = (None, [const_terminal a, const_terminal b])"
  "set_consts [const_terminal c, const_terminal d] [(0, a), (Suc 0, b)] = (None, [const_terminal a, const_terminal b])"
  by (simp_all add: setitem_def const_slot_def const_terminal_def)

lemma example_call:
  "GenericEvaluate_call (example_evaluator True False []) example_individual
     = Inr ([Fin 0], example_optimized, [[Fin 1, Fin 1]])"
proof -
  have idx: "filter (\<lambda>i. name ([const_slot, const_slot] ! i) = ''const'') [0..<2] = [0, Suc 0]"
    by (simp add: upt_rec numeral_2_eq_2 const_slot_def)
  have ob: "obj (example_evaluator True False []) [0, Suc 0] [const_slot, const_slot] [Fin 1, Fin 1]
             = (Inr (Fin 5), [const_terminal (Fin 1), const_terminal (Fin 1)])"
    by (simp add: obj_def set_consts_example example_evaluator_eq compile_consts
        array_sub_def np_sub_def np_mean_def np_sum_def del: set_consts.simps)
  have run: "run_optimizer (example_optimizer [Fin 1, Fin 1])
               (obj (example_evaluator True False []) [0, Suc 0]) [const_slot, const_slot]
             = (Inr [Fin 2, Fin 4], [const_terminal (Fin 1), const_terminal (Fin 1)])"
    by (simp add: example_optimizer_def ob)
  have fe: "finish_eval (example_evaluator True False []) [const_terminal (Fin 2), const_terminal (Fin 4)]
              [[Fin 1, Fin 2]] (\<lambda>y_hat. nmse [Fin 2, Fin 4] y_hat (Fin 1)) = Inr [Fin 0]"
    using finish_eval_optimized [of True False "[]" "[[Fin 1, Fin 2]]"]
    by (simp add: example_optimized_def)
  have es: "early_stop_reached (example_evaluator True False []) = Inr False"
    by (rule example_early_stop_off)
  have ev: "toolbox (example_evaluator True False []) \<noteq> None"
    "optimize (example_evaluator True False [])"
    "const_opt (example_evaluator True False []) = Some example_optimizer"
    "X_train (example_evaluator True False []) = [[Fin 1, Fin 2]]"
    "train_fitness (example_evaluator True False []) = (\<lambda>y_hat. nmse [Fin 2, Fin 4] y_hat (Fin 1))"
    by (simp_all add: example_evaluator_eq)
  have ix: "[0, Suc 0] = filter (\<lambda>i. name (nodes example_individual ! i) = ''const'')
                     [0..<length (nodes example_individual)]"
    by (simp add: example_individual_def upt_rec const_slot_def)
  have ne: "[0, Suc 0] \<noteq> ([] :: nat list)" by simp
  have n: "nodes example_individual = [const_slot, const_slot]"
    by (simp add: example_individual_def)
  show ?thesis
    unfolding call_optimize_eq [OF ev(1) ev(2) es ix ne]
    by (simp add: ev n np_ones_def numeral_2_eq_2 run set_consts_example fe
        example_optimized_def example_individual_def del: set_consts.simps)
qed

theorem const_slots_written_witness:
  "GenericEvaluate_call (example_evaluator True False []) example_individual
     = Inr ([Fin 0], example_optimized, [[Fin 1, Fin 1]])
   \<and> optimize (example_evaluator True False [])
   \<and> early_stop_reached (example_evaluator True False []) = Inr False
   \<and> [0, Suc 0] = filter (\<lambda>i. name (nodes example_individual ! i) = ''const'')
                     [0..<length (nodes example_individual)]
   \<and> [[Fin 1, Fin 1]] = [np_ones (length [0::nat, Suc 0])]
   \<and> length (nodes example_optimized) = length (nodes example_individual)
   \<and> nodes example_optimized ! 0 = const_terminal (Fin 2)
   \<and> nodes example_optimized ! Suc 0 = const_terminal (Fin 4)
   \<and> name (nodes example_optimized ! 0) = ''const''
   \<and> name (nodes example_optimized ! Suc 0) = ''const''"
proof -
  have h1: "GenericEvaluate_call (example_evaluator True False []) example_individual
     = Inr ([Fin 0], example_optimized, [[Fin 1, Fin 1]])" by (rule example_call)
  have h2: "optimize (example_evaluator True False [])" by (simp add: example_evaluator_eq)
  have h3: "early_stop_reached (example_evaluator True False []) = Inr False"
    by (rule example_early_stop_off)
  have h4: "[0, Suc 0] = filter (\<lambda>i. name (nodes example_individual ! i) = ''const'')
                     [0..<length (nodes example_individual)]"
    by (simp add: example_individual_def upt_rec const_slot_def)
  have h5: "[0, Suc 0] \<noteq> ([] :: nat list)" by simp
  have c: "[[Fin 1, Fin 1]] = [np_ones (length [0::nat, Suc 0])]
     \<and> length (nodes example_optimized) = length (nodes example_individual)"
    using const_slots_written [OF h1 h2 h3 h4 h5] by blast
  have v: "nodes example_optimized ! 0 = const_terminal (Fin 2)"
    "nodes example_optimized ! Suc 0 = const_terminal (Fin 4)"
    "name (nodes example_optimized ! 0) = ''const''"
    "name (nodes example_optimized ! Suc 0) = ''const''"
    by (simp_all add: example_optimized_def const_terminal_def)
  show ?thesis using h1 h2 h3 h4 c v by blast
qed

lemma example_test_loss:
  "finish_eval (example_evaluator True True example_hof)
     (nodes (hof (example_evaluator True True example_hof) ! 0))
     (X_test (example_evaluator True True example_hof))
     (test_fitness (example_evaluator True True example_hof)) = Inr [Fin 0]"
  using finish_eval_optimized [of True True example_hof "[[Fin 1, Fin 2]]"]
  by (simp add: example_evaluator_eq example_hof_def)

theorem early_stop_sentinel_witness:
  "toolbox (example_evaluator True True example_hof) \<noteq> None
   \<and> optimize (example_evaluator True True example_hof)
   \<and> early_stopping (example_evaluator True True example_hof)
   \<and> hof (example_evaluator True True example_hof) \<noteq> []
   \<and> np_less (Fin 0) (threshold (example_evaluator True True example_hof))
   \<and> GenericEvaluate_call (example_evaluator True True example_hof) example_individual
       = Inr ([Fin 1], example_individual, [])
   \<and> GenericEvaluate_call ((example_evaluator True True example_hof)\<lparr>const_opt := None\<rparr>)
        example_individual = Inr ([Fin 1], example_individual, [])"
proof -
  let ?ev = "example_evaluator True True example_hof"
  have h1: "toolbox ?ev \<noteq> None" and h2: "optimize ?ev" and h3: "early_stopping ?ev"
    and h4: "hof ?ev \<noteq> []" and h6: "np_less (Fin 0) (threshold ?ev)"
    by (simp_all add: example_evaluator_eq example_hof_def)
  from early_stop_sentinel [OF h1 h2 h3 h4 example_test_loss h6, of example_individual]
  show ?thesis using h1 h2 h3 h4 h6 by simp
qed

lemma example_no_slots:
  "filter (\<lambda>i. name (nodes \<lparr>nodes = [], fitness_values = []\<rparr> ! i) = ''const'')
     [0..<length (nodes \<lparr>nodes = [], fitness_values = []\<rparr>)] = []"
  by simp

theorem early_stop_scope_witness:
  "toolbox (example_evaluator True True example_hof) \<noteq> None
   \<and> optimize (example_evaluator True True example_hof)
   \<and> early_stopping (example_evaluator True True example_hof)
   \<and> hof (example_evaluator True True example_hof) \<noteq> []
   \<and> np_less (Fin 0) (threshold (example_evaluator True True example_hof))
   \<and> GenericEvaluate_call (example_evaluator True True example_hof)
        \<lparr>nodes = [], fitness_values = []\<rparr> = Inr ([Fin 1], \<lparr>nodes = [], fitness_values = []\<rparr>, [])
   \<and> toolbox (example_evaluator False True example_hof) \<noteq> None
   \<and> \<not> optimize (example_evaluator False True example_hof)
   \<and> GenericEvaluate_call (example_evaluator False True example_hof) example_optimized
       = Inr ([Fin 0], example_optimized, [])"
proof -
  let ?ev = "example_evaluator True True example_hof"
  let ?ev2 = "example_evaluator False True example_hof"
  have h: "toolbox ?ev \<noteq> None" "optimize ?ev" "early_stopping ?ev"
    "hof ?ev \<noteq> []" "np_less (Fin 0) (threshold ?ev)"
    by (simp_all add: example_evaluator_eq example_hof_def)
  have g: "toolbox ?ev2 \<noteq> None" "\<not> optimize ?ev2"
    by (simp_all add: example_evaluator_eq)
  have same: "?ev2\<lparr>early_stopping := True, hof := example_hof, threshold := Fin (1 / 10 ^ 12)\<rparr> = ?ev2"
    by (simp add: example_evaluator_eq)
  have fe: "finish_eval ?ev2 (nodes example_optimized) (X_train ?ev2) (train_fitness ?ev2) = Inr [Fin 0]"
    using finish_eval_optimized [of False True example_hof "[[Fin 1, Fin 2]]"]
    by (simp add: example_evaluator_eq)
  have a: "GenericEvaluate_call ?ev \<lparr>nodes = [], fitness_values = []\<rparr>
             = Inr ([Fin 1], \<lparr>nodes = [], fitness_values = []\<rparr>, [])"
    using early_stop_scope [of ?ev "Fin 0"] h example_test_loss example_no_slots by blast
  have "GenericEvaluate_call (?ev2\<lparr>early_stopping := True, hof := example_hof,
            threshold := Fin (1 / 10 ^ 12)\<rparr>) example_optimized =
          (case finish_eval ?ev2 (nodes example_optimized) (X_train ?ev2) (train_fitness ?ev2) of
             Inl e \<Rightarrow> Inl e | Inr fit \<Rightarrow> Inr (fit, example_optimized, []))"
    using early_stop_scope [of ?ev2 "Fin 0"] g by blast
  then have b: "GenericEvaluate_call ?ev2 example_optimized = Inr ([Fin 0], example_optimized, [])"
    by (simp only: same fe sum.case)
  show ?thesis using h g a b by simp
qed

lemma example_call_optimized:
  "GenericEvaluate_call (example_evaluator True False []) example_optimized
     = Inr ([Fin 0], example_optimized, [[Fin 1, Fin 1]])"
proof -
  have ob: "obj (example_evaluator True False []) [0, Suc 0]
              [const_terminal (Fin 2), const_terminal (Fin 4)] [Fin 1, Fin 1]
             = (Inr (Fin 5), [const_terminal (Fin 1), const_terminal (Fin 1)])"
    by (simp add: obj_def set_consts_example example_evaluator_eq compile_consts
        array_sub_def np_sub_def np_mean_def np_sum_def del: set_consts.simps)
  have run: "run_optimizer (example_optimizer [Fin 1, Fin 1])
               (obj (example_evaluator True False []) [0, Suc 0])
               [const_terminal (Fin 2), const_terminal (Fin 4)]
             = (Inr [Fin 2, Fin 4], [const_terminal (Fin 1), const_terminal (Fin 1)])"
    by (simp add: example_optimizer_def ob)
  have fe: "finish_eval (example_evaluator True False []) [const_terminal (Fin 2), const_terminal (Fin 4)]
              [[Fin 1, Fin 2]] (\<lambda>y_hat. nmse [Fin 2, Fin 4] y_hat (Fin 1)) = Inr [Fin 0]"
    using finish_eval_optimized [of True False "[]" "[[Fin 1, Fin 2]]"]
    by (simp add: example_optimized_def)
  have es: "early_stop_reached (example_evaluator True False []) = Inr False"
    by (rule example_early_stop_off)
  have ev: "toolbox (example_evaluator True False []) \<noteq> None"
    "optimize (example_evaluator True False [])"
    "const_opt (example_evaluator True False []) = Some example_optimizer"
    "X_train (example_evaluator True False []) = [[Fin 1, Fin 2]]"
    "train_fitness (example_evaluator True False []) = (\<lambda>y_hat. nmse [Fin 2, Fin 4] y_hat (Fin 1))"
    by (simp_all add: example_evaluator_eq)
  have ix: "[0, Suc 0] = filter (\<lambda>i. name (nodes example_optimized ! i) = ''const'')
                     [0..<length (nodes example_optimized)]"
    by (simp add: example_optimized_def upt_rec const_terminal_def)
  have ne: "[0, Suc 0] \<noteq> ([] :: nat list)" by simp
  have n: "nodes example_optimized = [const_terminal (Fin 2), const_terminal (Fin 4)]"
    by (simp add: example_optimized_def)
  show ?thesis
    unfolding call_optimize_eq [OF ev(1) ev(2) es ix ne]
    by (simp add: ev n np_ones_def numeral_2_eq_2 run set_consts_example fe
        example_optimized_def del: set_consts.simps)
qed

lemma example_hof_same:
  "(example_evaluator True False [])\<lparr>hof := []\<rparr> = example_evaluator True False []"
  by (simp add: example_evaluator_eq)

lemma registered_example:
  "registered_evaluate (example_evaluator True False []) (Some []) example_individual
     = Inr ([Fin 0], example_optimized)"
  "registered_evaluate (example_evaluator True False []) (Some []) example_optimized
     = Inr ([Fin 0], example_optimized)"
  by (simp_all add: registered_evaluate_def example_hof_same example_call example_call_optimized)

lemma example_valid:
  "\<not> valid example_individual" "valid example_evaluated" "\<not> valid example_optimized"
  "\<not> valid example_plain" "valid (example_plain\<lparr>fitness_values := [Fin 5]\<rparr>)"
  by (simp_all add: valid_def example_individual_def example_evaluated_def example_optimized_def
      example_plain_def)

lemma example_call_plain:
  "GenericEvaluate_call (example_evaluator True False []) example_plain
     = Inr ([Fin 5], example_plain, [])"
proof -
  have es: "early_stop_reached (example_evaluator True False []) = Inr False"
    by (rule example_early_stop_off)
  have ev: "toolbox (example_evaluator True False []) \<noteq> None"
    "optimize (example_evaluator True False [])"
    "X_train (example_evaluator True False []) = [[Fin 1, Fin 2]]"
    "train_fitness (example_evaluator True False []) = (\<lambda>y_hat. nmse [Fin 2, Fin 4] y_hat (Fin 1))"
    by (simp_all add: example_evaluator_eq)
  have fe: "finish_eval (example_evaluator True False []) (nodes example_plain) [[Fin 1, Fin 2]]
              (\<lambda>y_hat. nmse [Fin 2, Fin 4] y_hat (Fin 1)) = Inr [Fin 5]"
    by (simp add: finish_eval_def example_evaluator_eq example_compile_def example_plain_def
        nmse_def array_sub_def np_mean_def np_sum_def np_sub_def)
  have ix: "filter (\<lambda>i. name (nodes example_plain ! i) = ''const'')
              [0..<length (nodes example_plain)] = []"
    by (simp add: example_plain_def)
  show ?thesis
    by (simp add: GenericEvaluate_call_def Let_def ev es ix fe)
qed

lemma registered_plain:
  "registered_evaluate (example_evaluator True False []) (Some []) example_plain
     = Inr ([Fin 5], example_plain)"
  by (simp add: registered_evaluate_def example_hof_same example_call_plain)

lemma example_eval:
  "GenericAlgorithm_eval example_library (Some example_toolbox) [0, 2, 1] (Some []) example_world
     = Inr (([0, 2, 1], Some [example_evaluated], [0, 1]),
            example_world\<lparr>heap := (heap example_world)
               (0 := example_evaluated, 1 := example_plain\<lparr>fitness_values := [Fin 5]\<rparr>)\<rparr>)"
  by (simp add: GenericAlgorithm_eval_def example_world_def example_toolbox_def
      example_library_def example_valid registered_example registered_plain
      example_evaluated_def [symmetric])

theorem eval_invalid_only_witness:
  "GenericAlgorithm_eval example_library (Some example_toolbox) [0, 2, 1] (Some []) example_world
     = Inr (([0, 2, 1], Some [example_evaluated], [0, 1]),
            example_world\<lparr>heap := (heap example_world)
               (0 := example_evaluated, 1 := example_plain\<lparr>fitness_values := [Fin 5]\<rparr>)\<rparr>)
   \<and> [0, 1] = filter (\<lambda>a. \<not> valid (heap example_world a)) [0, 2, 1]
   \<and> evaluate example_toolbox (Some []) (heap example_world 0) = Inr ([Fin 0], example_optimized)
   \<and> evaluate example_toolbox (Some []) (heap example_world 1) = Inr ([Fin 5], example_plain)
   \<and> heap (example_world\<lparr>heap := (heap example_world)
               (0 := example_evaluated, 1 := example_plain\<lparr>fitness_values := [Fin 5]\<rparr>)\<rparr>) 0
       = example_optimized\<lparr>fitness_values := [Fin 0]\<rparr>
   \<and> heap (example_world\<lparr>heap := (heap example_world)
               (0 := example_evaluated, 1 := example_plain\<lparr>fitness_values := [Fin 5]\<rparr>)\<rparr>) 1
       = example_plain\<lparr>fitness_values := [Fin 5]\<rparr>
   \<and> heap (example_world\<lparr>heap := (heap example_world)
               (0 := example_evaluated, 1 := example_plain\<lparr>fitness_values := [Fin 5]\<rparr>)\<rparr>) 2
       = heap example_world 2
   \<and> valid example_evaluated
   \<and> valid (example_plain\<lparr>fitness_values := [Fin 5]\<rparr>)"
proof -
  let ?w' = "example_world\<lparr>heap := (heap example_world)
               (0 := example_evaluated, 1 := example_plain\<lparr>fitness_values := [Fin 5]\<rparr>)\<rparr>"
  have one: "\<forall>tb h i fit i'. Some example_toolbox = Some tb \<and> evaluate tb h i = Inr (fit, i')
               \<longrightarrow> length fit = 1"
    by (auto simp: example_toolbox_def dest: registered_evaluate_len)
  note f = eval_invalid_only [OF example_eval one]
  have inv: "[0, 1] = filter (\<lambda>a. \<not> valid (heap example_world a)) [0, 2, 1]"
    using f by blast
  have once: "\<forall>a. count_list [0, 1] a = 1 \<longrightarrow>
      (\<exists>fit i'. evaluate example_toolbox (Some []) (heap example_world a) = Inr (fit, i')
          \<and> heap ?w' a = i'\<lparr>fitness_values := fit\<rparr>)"
    using f by blast
  have e0: "evaluate example_toolbox (Some []) (heap example_world 0) = Inr ([Fin 0], example_optimized)"
    and e1: "evaluate example_toolbox (Some []) (heap example_world 1) = Inr ([Fin 5], example_plain)"
    by (simp_all add: example_toolbox_def example_world_def registered_example registered_plain)
  have h0: "heap ?w' 0 = example_optimized\<lparr>fitness_values := [Fin 0]\<rparr>"
    using once [rule_format, of 0] e0 by simp
  have h1: "heap ?w' 1 = example_plain\<lparr>fitness_values := [Fin 5]\<rparr>"
    using once [rule_format, of 1] e1 by simp
  have h2: "heap ?w' 2 = heap example_world 2"
    using f by simp
  have v: "valid example_evaluated" "valid (example_plain\<lparr>fitness_values := [Fin 5]\<rparr>)"
    by (simp_all add: example_valid)
  show ?thesis
    using example_eval inv e0 e1 h0 h1 h2 v by blast
qed

section \<open>The run returns when the collaborators return\<close>

lemma assign_fitnesses_total:
  assumes "\<forall>i. \<exists>r. ev i = Inr r"
  shows "\<exists>h'. assign_fitnesses ev as h = Inr h'"
proof (induction as arbitrary: h)
  case Nil
  show ?case by simp
next
  case (Cons a rest)
  obtain fit ind' where e: "ev (h a) = Inr (fit, ind')"
    using assms by (metis surj_pair)
  obtain h' where "assign_fitnesses ev rest (h(a := ind'\<lparr>fitness_values := fit\<rparr>)) = Inr h'"
    using Cons.IH by blast
  then show ?case using e by simp
qed

lemma GenericAlgorithm_eval_total:
  assumes "\<forall>h i. \<exists>r. evaluate tb h i = Inr r"
  shows "\<exists>hf' ivs w'. GenericAlgorithm_eval lib (Some tb) p hf w = Inr ((p, hf', ivs), w')"
proof -
  obtain h' where
    "assign_fitnesses (evaluate tb hf) (filter (\<lambda>a. \<not> valid (heap w a)) p) (heap w) = Inr h'"
    using assign_fitnesses_total [of "evaluate tb hf"] assms by blast
  then show ?thesis by (simp add: GenericAlgorithm_eval_def)
qed

lemma clone_all_total:
  assumes "\<forall>a w. \<exists>r. clone tb a w = Inr r"
  shows "\<exists>r. clone_all tb p w = Inr r"
proof (induction p arbitrary: w)
  case Nil
  show ?case by simp
next
  case (Cons a rest)
  obtain a' w1 where c: "clone tb a w = Inr (a', w1)"
    using assms by (metis surj_pair)
  obtain rest' w2 where "clone_all tb rest w1 = Inr (rest', w2)"
    using Cons.IH by (metis surj_pair)
  then show ?case using c by simp
qed

lemma crossover_loop_total:
  assumes "\<forall>a b w. \<exists>r. mate tb a b w = Inr r"
  shows "\<exists>r. crossover_loop lib tb cxpb is off w = Inr r"
proof (induction "is" arbitrary: off w)
  case Nil
  show ?case by simp
next
  case (Cons i rest)
  obtain u r1 where u: "random_random lib (rng w) = (u, r1)"
    by (cases "random_random lib (rng w)")
  show ?case
  proof (cases "u < cxpb")
    case True
    obtain c1 c2 w1 where
      m: "mate tb (off ! (i - 1)) (off ! i) (w\<lparr>rng := r1\<rparr>) = Inr ((c1, c2), w1)"
      using assms by (metis surj_pair)
    obtain r where "crossover_loop lib tb cxpb rest (off[i - 1 := c1, i := c2])
            (del_fitness_values c2 (del_fitness_values c1 w1)) = Inr r"
      using Cons.IH by blast
    then show ?thesis using u True m by simp
  next
    case False
    obtain r where "crossover_loop lib tb cxpb rest off (w\<lparr>rng := r1\<rparr>) = Inr r"
      using Cons.IH by blast
    then show ?thesis using u False by simp
  qed
qed

lemma mutation_loop_total:
  assumes "\<forall>a w. \<exists>r. mutate tb a w = Inr r"
  shows "\<exists>r. mutation_loop lib tb mutpb is off w = Inr r"
proof (induction "is" arbitrary: off w)
  case Nil
  show ?case by simp
next
  case (Cons i rest)
  obtain u r1 where u: "random_random lib (rng w) = (u, r1)"
    by (cases "random_random lib (rng w)")
  show ?case
  proof (cases "u < mutpb")
    case True
    obtain m w1 where m: "mutate tb (off ! i) (w\<lparr>rng := r1\<rparr>) = Inr (m, w1)"
      using assms by (metis surj_pair)
    obtain r where "mutation_loop lib tb mutpb rest (off[i := m]) (del_fitness_values m w1) = Inr r"
      using Cons.IH by blast
    then show ?thesis using u True m by simp
  next
    case False
    obtain r where "mutation_loop lib tb mutpb rest off (w\<lparr>rng := r1\<rparr>) = Inr r"
      using Cons.IH by blast
    then show ?thesis using u False by simp
  qed
qed

lemma var_and_total:
  assumes "\<forall>a w. \<exists>r. clone tb a w = Inr r"
    and "\<forall>a b w. \<exists>r. mate tb a b w = Inr r"
    and "\<forall>a w. \<exists>r. mutate tb a w = Inr r"
  shows "\<exists>p' w'. GenericAlgorithm_var_and lib p tb cxpb mutpb w = Inr (p', w')"
proof -
  obtain off w1 where c: "clone_all tb p w = Inr (off, w1)"
    using clone_all_total [OF assms(1)] by (metis surj_pair)
  obtain off2 w2 where
    x: "crossover_loop lib tb cxpb (filter odd [1..<length off]) off w1 = Inr (off2, w2)"
    using crossover_loop_total [OF assms(2)] by (metis surj_pair)
  obtain p' w' where "mutation_loop lib tb mutpb [0..<length off2] off2 w2 = Inr (p', w')"
    using mutation_loop_total [OF assms(3)] by (metis surj_pair)
  then show ?thesis using c x by (simp add: GenericAlgorithm_var_and_def)
qed

lemma generation_total:
  assumes "\<forall>h i. \<exists>r. evaluate tb h i = Inr r"
    and "\<forall>p k w. \<exists>r. select tb p k w = Inr r"
    and "\<forall>a w. \<exists>r. clone tb a w = Inr r"
    and "\<forall>a b w. \<exists>r. mate tb a b w = Inr r"
    and "\<forall>a w. \<exists>r. mutate tb a w = Inr r"
  shows "\<exists>st. generation lib (Some tb) tb cxpb mutpb None g (p, lb, hf, w) = Inr st"
proof -
  obtain sl wa where s: "select tb p (length p) w = Inr (sl, wa)"
    using assms(2) by (metis surj_pair)
  obtain vr wb where v: "GenericAlgorithm_var_and lib sl tb cxpb mutpb wa = Inr (vr, wb)"
    using var_and_total [OF assms(3,4,5)] by blast
  obtain hf' ivs w3 where "GenericAlgorithm_eval lib (Some tb) vr hf wb = Inr ((vr, hf', ivs), w3)"
    using GenericAlgorithm_eval_total [OF assms(1)] by blast
  then show ?thesis using s v by (simp add: generation_def compile_stats_def)
qed

lemma generations_loop_total:
  assumes "\<forall>h i. \<exists>r. evaluate tb h i = Inr r"
    and "\<forall>p k w. \<exists>r. select tb p k w = Inr r"
    and "\<forall>a w. \<exists>r. clone tb a w = Inr r"
    and "\<forall>a b w. \<exists>r. mate tb a b w = Inr r"
    and "\<forall>a w. \<exists>r. mutate tb a w = Inr r"
  shows "\<exists>st'. generations_loop lib (Some tb) tb cxpb mutpb None gs st = Inr st'"
proof (induction gs arbitrary: st)
  case Nil
  show ?case by (rule exI [of _ st]) simp
next
  case (Cons g gs)
  obtain p lb hf w where st: "st = (p, lb, hf, w)" by (cases st rule: prod_cases4) blast
  obtain st1 where g: "generation lib (Some tb) tb cxpb mutpb None g (p, lb, hf, w) = Inr st1"
    using generation_total [OF assms] by blast
  obtain st' where "generations_loop lib (Some tb) tb cxpb mutpb None gs st1 = Inr st'"
    using Cons.IH by blast
  then have "generations_loop lib (Some tb) tb cxpb mutpb None (g # gs) st = Inr st'"
    using g st by simp
  then show ?case by (rule exI)
qed

text \<open>
  Without statistics, and with the toolbox of the call as the global toolbox, the algorithm
  returns whenever evaluation, selection, cloning, crossover and mutation return.
\<close>

lemma GenericAlgorithm_call_total:
  assumes "\<forall>h i. \<exists>r. evaluate tb h i = Inr r"
    and "\<forall>p k w. \<exists>r. select tb p k w = Inr r"
    and "\<forall>a w. \<exists>r. clone tb a w = Inr r"
    and "\<forall>a b w. \<exists>r. mate tb a b w = Inr r"
    and "\<forall>a w. \<exists>r. mutate tb a w = Inr r"
  shows "\<exists>p' logbook hf' w'.
    GenericAlgorithm_call lib (Some tb) p tb cxpb mutpb ngen (None :: (individual list \<Rightarrow> error + 's) option) hf verbose w
      = Inr ((p', logbook), hf', w')"
proof -
  obtain hf0 ivs w0 where e: "GenericAlgorithm_eval lib (Some tb) p hf w = Inr ((p, hf0, ivs), w0)"
    using GenericAlgorithm_eval_total [OF assms(1)] by blast
  then have hd: "GenericAlgorithm_header lib (Some tb) p tb (None :: (individual list \<Rightarrow> error + 's) option) hf verbose w
     = Inr (([\<lparr>gen = 0, nevals = length ivs, stats_record = (None :: 's option)\<rparr>], hf0), w0)"
    by (simp add: GenericAlgorithm_header_def compile_stats_def)
  obtain st' where l: "generations_loop lib (Some tb) tb cxpb mutpb (None :: (individual list \<Rightarrow> error + 's) option) [1..ngen]
      (p, [\<lparr>gen = 0, nevals = length ivs, stats_record = (None :: 's option)\<rparr>], hf0, w0) = Inr st'"
    using generations_loop_total [OF assms] by blast
  obtain p' lb' hf' w' where "st' = (p', lb', hf', w')" by (cases st' rule: prod_cases4) blast
  then show ?thesis using hd l by (simp add: GenericAlgorithm_call_def)
qed

section \<open>The example run of the algorithm\<close>

lemma example_select_length:
  "\<forall>q k w0 q' w0'. select example_toolbox q k w0 = Inr (q', w0') \<longrightarrow> length q' = k"
  by (auto simp: example_toolbox_def)

lemma example_run:
  "\<exists>p' logbook hf' w'.
     GenericAlgorithm_call example_library
       (Some (example_toolbox\<lparr>evaluate := \<lambda>h i. Inr ([Fin 1], i)\<rparr>)) [0, 1, 2]
       (example_toolbox\<lparr>evaluate := \<lambda>h i. Inr ([Fin 1], i)\<rparr>)
       (1 / 2) (1 / 10) 1 (None :: (individual list \<Rightarrow> error + unit) option) (Some []) False
       example_world = Inr ((p', logbook), hf', w')"
  by (rule GenericAlgorithm_call_total) (simp_all add: example_toolbox_def)

lemma example_first_eval:
  "GenericAlgorithm_eval example_library
     (Some (example_toolbox\<lparr>evaluate := \<lambda>h i. Inr ([Fin 1], i)\<rparr>)) [0, 1, 2] (Some [])
     example_world = Inr ((p0, hf0, ivs0), w0)
   \<Longrightarrow> ivs0 = [0, 1] \<and> rng w0 = 0 \<and> heap w0 2 = example_evaluated"
  by (auto simp: GenericAlgorithm_eval_def example_world_def example_valid Let_def)

lemma example_select:
  "select (example_toolbox\<lparr>evaluate := ev\<rparr>) [0, 1, 2] (length [0::nat, 1, 2]) w
     = Inr ([0, 1, 2], w)"
  by (simp add: example_toolbox_def upt_rec)

lemma example_var_and:
  assumes "rng w = 0"
    and "GenericAlgorithm_var_and example_library [0, 1, 2]
           (example_toolbox\<lparr>evaluate := ev\<rparr>) (1 / 2) (1 / 10) w = Inr (offspring, wb)"
  shows "offspring = [10, 11, 12] \<and> fitness_values (heap wb 10) = []
       \<and> fitness_values (heap wb 11) = [] \<and> heap wb 12 = heap w 2"
proof -
  have c: "clone_all (example_toolbox\<lparr>evaluate := ev\<rparr>) [0, 1, 2] w
        = Inr ([10, 11, 12],
               w\<lparr>heap := (heap w)(10 := heap w 0, 11 := heap w 1, 12 := heap w 2)\<rparr>)"
    by (simp add: example_toolbox_def)
  have ix: "filter odd [1..<length [10::nat, 11, 12]] = [1]"
    by (simp add: upt_rec)
  have x: "crossover_loop example_library (example_toolbox\<lparr>evaluate := ev\<rparr>) (1 / 2) [1]
             [10, 11, 12]
             (w\<lparr>heap := (heap w)(10 := heap w 0, 11 := heap w 1, 12 := heap w 2)\<rparr>)
        = Inr ([10, 11, 12],
               w\<lparr>heap := (heap w)(10 := (heap w 0)\<lparr>fitness_values := []\<rparr>,
                                     11 := (heap w 1)\<lparr>fitness_values := []\<rparr>, 12 := heap w 2),
                  rng := 1\<rparr>)"
    using assms(1)
    by (simp add: example_toolbox_def example_library_def del_fitness_values_def fun_upd_twist)
  have m: "mutation_loop example_library (example_toolbox\<lparr>evaluate := ev\<rparr>) (1 / 10)
             [0..<length [10::nat, 11, 12]] [10, 11, 12]
             (w\<lparr>heap := (heap w)(10 := (heap w 0)\<lparr>fitness_values := []\<rparr>,
                                     11 := (heap w 1)\<lparr>fitness_values := []\<rparr>, 12 := heap w 2),
                  rng := 1\<rparr>)
        = Inr ([10, 11, 12],
               w\<lparr>heap := (heap w)(10 := (heap w 0)\<lparr>fitness_values := []\<rparr>,
                                     11 := (heap w 1)\<lparr>fitness_values := []\<rparr>, 12 := heap w 2),
                  rng := 4\<rparr>)"
    by (simp add: example_toolbox_def example_library_def del_fitness_values_def upt_rec
        fun_upd_twist)
  have "GenericAlgorithm_var_and example_library [0, 1, 2]
           (example_toolbox\<lparr>evaluate := ev\<rparr>) (1 / 2) (1 / 10) w
        = Inr ([10, 11, 12],
               w\<lparr>heap := (heap w)(10 := (heap w 0)\<lparr>fitness_values := []\<rparr>,
                                     11 := (heap w 1)\<lparr>fitness_values := []\<rparr>, 12 := heap w 2),
                  rng := 4\<rparr>)"
    unfolding GenericAlgorithm_var_and_def c
    by (simp only: sum.case prod.case ix x m)
  then show ?thesis using assms(2) by auto
qed

theorem generations_fixed_witness:
  "\<exists>p' logbook hf' w'.
     GenericAlgorithm_call example_library
       (Some (example_toolbox\<lparr>evaluate := \<lambda>h i. Inr ([Fin 1], i)\<rparr>)) [0, 1, 2]
       (example_toolbox\<lparr>evaluate := \<lambda>h i. Inr ([Fin 1], i)\<rparr>)
       (1 / 2) (1 / 10) 1 (None :: (individual list \<Rightarrow> error + unit) option) (Some []) False
       example_world = Inr ((p', logbook), hf', w')
     \<and> p' = [10, 11, 12]
     \<and> map gen logbook = [0, 1]
     \<and> length logbook = 2
     \<and> nevals (logbook ! 0) = 2
     \<and> nevals (logbook ! 1) = 2"
proof -
  let ?tb = "example_toolbox\<lparr>evaluate := \<lambda>h i. Inr ([Fin 1], i)\<rparr>"
  obtain p' logbook hf' w' where ret:
    "GenericAlgorithm_call example_library (Some ?tb) [0, 1, 2] ?tb
       (1 / 2) (1 / 10) 1 (None :: (individual list \<Rightarrow> error + unit) option) (Some []) False
       example_world = Inr ((p', logbook), hf', w')"
    using example_run by blast
  have sel: "\<forall>q k w0 q' w0'. select ?tb q k w0 = Inr (q', w0') \<longrightarrow> length q' = k"
    using example_select_length by simp
  note f = generations_fixed [OF ret sel]
  have u: "[1..(1::int)] = [1]" by (simp add: upto.simps)
  have g: "map gen logbook = [0, 1]" and l: "length logbook = 2"
    using f u by simp_all
  from f obtain sts hf0 w0 ivs0 where
    e0: "GenericAlgorithm_eval example_library (Some ?tb) [0, 1, 2] (Some []) example_world
           = Inr (([0, 1, 2], hf0, ivs0), w0)"
    and n0: "nevals (logbook ! 0) = length ivs0"
    and s0: "sts ! 0 = ([0, 1, 2], [logbook ! 0], hf0, w0)"
    and sn: "sts ! nat 1 = (p', logbook, hf', w')"
    and step: "\<forall>k<nat 1. \<exists>q h w0 selected wa offspring wb h1 ivs w1.
                sts ! k = (q, take (Suc k) logbook, h, w0)
              \<and> length q = length [0::nat, 1, 2]
              \<and> select ?tb q (length q) w0 = Inr (selected, wa)
              \<and> GenericAlgorithm_var_and example_library selected ?tb (1 / 2) (1 / 10) wa
                  = Inr (offspring, wb)
              \<and> GenericAlgorithm_eval example_library (Some ?tb) offspring h wb
                  = Inr ((offspring, h1, ivs), w1)
              \<and> ivs = filter (\<lambda>a. \<not> valid (heap wb a)) offspring
              \<and> gen (logbook ! Suc k) = int (Suc k)
              \<and> nevals (logbook ! Suc k) = length ivs
              \<and> compile_stats None (map (heap w1) offspring)
                  = Inr (stats_record (logbook ! Suc k))
              \<and> sts ! Suc k = (offspring, take (Suc (Suc k)) logbook, h1, w1)"
    by blast
  have w0: "ivs0 = [0, 1]" "rng w0 = 0" "heap w0 2 = example_evaluated"
    using example_first_eval [OF e0] by simp_all
  have "0 < nat 1" by simp
  from step [rule_format, OF this] s0 obtain selected wa offspring wb h1 w1 where
    s: "select ?tb [0, 1, 2] (length [0::nat, 1, 2]) w0 = Inr (selected, wa)"
    and v: "GenericAlgorithm_var_and example_library selected ?tb (1 / 2) (1 / 10) wa
                  = Inr (offspring, wb)"
    and n1: "nevals (logbook ! Suc 0) = length (filter (\<lambda>a. \<not> valid (heap wb a)) offspring)"
    and s1: "sts ! Suc 0 = (offspring, take (Suc (Suc 0)) logbook, h1, w1)"
    by auto
  have sw: "selected = [0, 1, 2]" "wa = w0"
    using s unfolding example_select by simp_all
  note o = example_var_and [OF w0(2) v [unfolded sw]]
  have p': "p' = [10, 11, 12]" using sn s1 o by simp
  have "filter (\<lambda>a. \<not> valid (heap wb a)) offspring = [10, 11]"
    using o w0(3) by (simp add: valid_def example_valid [unfolded valid_def])
  then have n1': "nevals (logbook ! 1) = 2" using n1 by simp
  have n0': "nevals (logbook ! 0) = 2" using n0 w0(1) by simp
  have "GenericAlgorithm_call example_library (Some ?tb) [0, 1, 2] ?tb
       (1 / 2) (1 / 10) 1 (None :: (individual list \<Rightarrow> error + unit) option) (Some []) False
       example_world = Inr ((p', logbook), hf', w')
     \<and> p' = [10, 11, 12]
     \<and> map gen logbook = [0, 1]
     \<and> length logbook = 2
     \<and> nevals (logbook ! 0) = 2
     \<and> nevals (logbook ! 1) = 2"
    using ret p' g l n0' n1' by (intro conjI)
  then show ?thesis by (intro exI)
qed

end
